theory Spec2Isabelle
  imports Main
begin

section \<open>Go values\<close>

text \<open>
  A Go \<^verbatim>\<open>string\<close> and a Go \<^verbatim>\<open>[]byte\<close> are both sequences of bytes; HOL's
  \<^typ>\<open>char\<close> is a byte, so both are modelled by \<^typ>\<open>string\<close>, and the conversions
  \<^verbatim>\<open>[]byte(s)\<close> and \<^verbatim>\<open>string(b)\<close> are the identity.

  A Go map has no order of its own. A map the adapter ranges over is modelled by the
  list of its entries, keys distinct, in the order in which the \<^verbatim>\<open>range\<close> statement
  visits them; every theorem below holds for each such order. \<^verbatim>\<open>len(m)\<close> is the
  length of the list and \<^verbatim>\<open>m[k]\<close> the value paired with \<open>k\<close>, the zero value when
  \<open>k\<close> is absent. A map that is only built, copied or looked up is a HOL map.

  A Go function returning \<^verbatim>\<open>(*T, error)\<close> is modelled with the pair it returns:
  \<open>None\<close> is \<^verbatim>\<open>nil\<close>.
\<close>

type_synonym bytes = string

type_synonym ('k, 'v) gomap = "('k \<times> 'v) list"

definition index_str :: "(string, string) gomap \<Rightarrow> string \<Rightarrow> string" where
  "index_str m k = (case map_of m k of None \<Rightarrow> [] | Some v \<Rightarrow> v)"

text \<open>The errors that occur: those of the standard library, and \<^verbatim>\<open>errors.Wrap(err, msg)\<close>
  of package pkg/errors, which keeps the cause under a message.\<close>

datatype error =
    CorruptInputError
  | InvalidMethodError
  | URLParseError
  | ReadError
  | Wrap error string

section \<open>The standard library functions the adapter calls\<close>

subsection \<open>Package strings\<close>

definition HasPrefix :: "string \<Rightarrow> string \<Rightarrow> bool" where
  "HasPrefix s pre = (length pre \<le> length s \<and> take (length pre) s = pre)"

definition HasSuffix :: "string \<Rightarrow> string \<Rightarrow> bool" where
  "HasSuffix s suf = (length suf \<le> length s \<and> drop (length s - length suf) s = suf)"

text \<open>\<^verbatim>\<open>strings.Trim(s, cutset)\<close>: all leading and trailing bytes of the cutset removed
  (the cutset used by the adapter is the single space).\<close>

definition Trim :: "string \<Rightarrow> string \<Rightarrow> string" where
  "Trim s cutset = rev (dropWhile (\<lambda>c. c \<in> set cutset) (rev (dropWhile (\<lambda>c. c \<in> set cutset) s)))"

text \<open>\<^verbatim>\<open>strings.Replace(s, old, new, 1)\<close>: the first (leftmost) occurrence of \<open>old\<close>
  replaced. An empty \<open>old\<close> matches at the very start.\<close>

fun Replace1 :: "string \<Rightarrow> string \<Rightarrow> string \<Rightarrow> string" where
  "Replace1 [] old new = (if old = [] then new else [])"
| "Replace1 (c # s) old new =
     (if HasPrefix (c # s) old then new @ drop (length old) (c # s)
      else c # Replace1 s old new)"

text \<open>
  \<^verbatim>\<open>strings.ToUpper\<close>. On a string of ASCII bytes it maps \<open>a\<close>..\<open>z\<close> to \<open>A\<close>..\<open>Z\<close>.
  On any other string it applies the upper-case mapping of the Unicode tables rune by
  rune; those tables are not modelled, and that result is taken from the parameter
  \<open>unicodeUpper\<close>.
\<close>

definition upperByte :: "char \<Rightarrow> char" where
  "upperByte c =
     (if 97 \<le> (of_char c :: nat) \<and> (of_char c :: nat) \<le> 122
      then char_of ((of_char c :: nat) - 32) else c)"

definition ToUpper :: "(string \<Rightarrow> string) \<Rightarrow> string \<Rightarrow> string" where
  "ToUpper unicodeUpper s =
     (if \<forall>c \<in> set s. (of_char c :: nat) < 128 then map upperByte s else unicodeUpper s)"

subsection \<open>Package net/url\<close>

definition isAlnum :: "char \<Rightarrow> bool" where
  "isAlnum c =
     (let x = (of_char c :: nat)
      in (97 \<le> x \<and> x \<le> 122) \<or> (65 \<le> x \<and> x \<le> 90) \<or> (48 \<le> x \<and> x \<le> 57))"

text \<open>\<^verbatim>\<open>shouldEscape(c, encodeQueryComponent)\<close>: everything but letters, digits and
  \<^verbatim>\<open>-_.~\<close> is escaped.\<close>

definition shouldEscape :: "char \<Rightarrow> bool" where
  "shouldEscape c = (\<not> (isAlnum c \<or> c \<in> set ''-_.~''))"

definition upperhex :: string where
  "upperhex = ''0123456789ABCDEF''"

text \<open>\<^verbatim>\<open>url.QueryEscape\<close>: a space becomes \<^verbatim>\<open>+\<close>, any other escaped byte becomes
  \<^verbatim>\<open>%XX\<close>.\<close>

fun QueryEscape :: "string \<Rightarrow> string" where
  "QueryEscape [] = []"
| "QueryEscape (c # s) =
     (if shouldEscape c then
        (if c = CHR '' '' then CHR ''+'' # QueryEscape s
         else CHR ''%'' # upperhex ! ((of_char c :: nat) div 16) # upperhex ! ((of_char c :: nat) mod 16)
                # QueryEscape s)
      else c # QueryEscape s)"

subsection \<open>Package encoding/base64, the padded standard encoding\<close>

definition encodeStd :: string where
  "encodeStd = ''ABCDEFGHIJKLMNOPQRSTUVWXYZabcdefghijklmnopqrstuvwxyz0123456789+/''"

text \<open>\<^verbatim>\<open>enc.encode[v & 0x3F]\<close>\<close>

definition encode6 :: "nat \<Rightarrow> char" where
  "encode6 v = encodeStd ! (v mod 64)"

text \<open>\<^verbatim>\<open>EncodeToString\<close>: three bytes become four characters; one or two left-over
  bytes become two or three characters and padding.\<close>

fun EncodeToString :: "bytes \<Rightarrow> string" where
  "EncodeToString (a # b # c # src) =
     (let val = of_char a * 65536 + of_char b * 256 + of_char c
      in encode6 (val div 262144) # encode6 (val div 4096) # encode6 (val div 64) # encode6 val
           # EncodeToString src)"
| "EncodeToString [a, b] =
     (let val = of_char a * 65536 + of_char b * 256
      in [encode6 (val div 262144), encode6 (val div 4096), encode6 (val div 64), CHR ''=''])"
| "EncodeToString [a] =
     (let val = of_char a * 65536
      in [encode6 (val div 262144), encode6 (val div 4096), CHR ''='', CHR ''=''])"
| "EncodeToString [] = []"

text \<open>\<^verbatim>\<open>enc.decodeMap\<close>: the position of a character in the alphabet; \<open>None\<close> stands
  for the table's \<^verbatim>\<open>0xff\<close> (not in the alphabet). The alphabet has no repeated
  character, so first and last position agree.\<close>

fun indexFrom :: "nat \<Rightarrow> string \<Rightarrow> char \<Rightarrow> nat option" where
  "indexFrom i [] c = None"
| "indexFrom i (e # es) c = (if e = c then Some i else indexFrom (Suc i) es c)"

definition decodeMap :: "char \<Rightarrow> nat option" where
  "decodeMap c = indexFrom 0 encodeStd c"

definition isNewline :: "char \<Rightarrow> bool" where
  "isNewline c = (c = CHR 0x0A \<or> c = CHR 0x0D)"

text \<open>The end of \<^verbatim>\<open>decodeQuantum\<close>: the 6-bit values read so far (two, three or four)
  are packed into 24 bits, and one, two or three bytes come out.\<close>

definition assemble :: "nat list \<Rightarrow> bytes" where
  "assemble dbuf =
     (let d = dbuf @ replicate (4 - length dbuf) 0;
          val = d ! 0 * 262144 + d ! 1 * 4096 + d ! 2 * 64 + d ! 3
      in take (length dbuf - 1) [char_of (val div 65536), char_of (val div 256), char_of val])"


text \<open>
  \<^verbatim>\<open>DecodeString\<close>, written as the loop over \<^verbatim>\<open>decodeQuantum\<close>: \<open>dbuf\<close> holds the
  values of the current quantum. Line feeds and carriage returns are skipped anywhere;
  the input may end only between quanta; padding may come only after two or three
  values, must be complete, and only newlines may follow it. The encoding is not
  strict: the unused low bits of a padded quantum are not checked.
\<close>

fun decodeLoop :: "nat list \<Rightarrow> string \<Rightarrow> error + bytes" where
  "decodeLoop dbuf [] = (if dbuf = [] then Inr [] else Inl CorruptInputError)"
| "decodeLoop dbuf (c # src) =
     (case decodeMap c of
        Some v \<Rightarrow>
          (if length dbuf = 3
           then (case decodeLoop [] src of
                   Inl e \<Rightarrow> Inl e
                 | Inr out \<Rightarrow> Inr (assemble (dbuf @ [v]) @ out))
           else decodeLoop (dbuf @ [v]) src)
      | None \<Rightarrow>
          (if isNewline c then decodeLoop dbuf src
           else if c \<noteq> CHR ''='' then Inl CorruptInputError
           else if length dbuf < 2 then Inl CorruptInputError
           else if length dbuf = 2 then
             (case dropWhile isNewline src of
                [] \<Rightarrow> Inl CorruptInputError
              | p # rest \<Rightarrow>
                  (if p \<noteq> CHR ''='' then Inl CorruptInputError
                   else if dropWhile isNewline rest \<noteq> [] then Inl CorruptInputError
                   else Inr (assemble dbuf)))
           else if dropWhile isNewline src \<noteq> [] then Inl CorruptInputError
           else Inr (assemble dbuf)))"

definition DecodeString :: "string \<Rightarrow> error + bytes" where
  "DecodeString s = decodeLoop [] s"

subsection \<open>Package unicode/utf8\<close>

definition cont :: "char \<Rightarrow> bool" where
  "cont c = (128 \<le> (of_char c :: nat) \<and> (of_char c :: nat) \<le> 191)"

text \<open>\<^verbatim>\<open>utf8.Valid\<close>: the bytes are a sequence of well-formed encodings of Unicode
  scalar values: no overlong form, no surrogate, nothing above U+10FFFF.\<close>

fun Valid :: "bytes \<Rightarrow> bool" where
  "Valid [] = True"
| "Valid (c # p) =
     (let x = (of_char c :: nat) in
      if x < 128 then Valid p
      else if 194 \<le> x \<and> x \<le> 223 then
        (case p of c1 # p' \<Rightarrow> cont c1 \<and> Valid p' | _ \<Rightarrow> False)
      else if 224 \<le> x \<and> x \<le> 239 then
        (case p of c1 # c2 # p' \<Rightarrow>
           (if x = 224 then 160 \<le> (of_char c1 :: nat) \<and> (of_char c1 :: nat) \<le> 191
            else if x = 237 then 128 \<le> (of_char c1 :: nat) \<and> (of_char c1 :: nat) \<le> 159
            else cont c1) \<and> cont c2 \<and> Valid p'
         | _ \<Rightarrow> False)
      else if 240 \<le> x \<and> x \<le> 244 then
        (case p of c1 # c2 # c3 # p' \<Rightarrow>
           (if x = 240 then 144 \<le> (of_char c1 :: nat) \<and> (of_char c1 :: nat) \<le> 191
            else if x = 244 then 128 \<le> (of_char c1 :: nat) \<and> (of_char c1 :: nat) \<le> 143
            else cont c1) \<and> cont c2 \<and> cont c3 \<and> Valid p'
         | _ \<Rightarrow> False)
      else False)"

subsection \<open>Packages io, io/ioutil and net/http: responses\<close>

text \<open>A body stream: the bytes it delivers, and the error that ends it
  (\<open>None\<close> for a regular end of file).\<close>

datatype Reader = Reader bytes "error option"

fun ReadAll :: "Reader \<Rightarrow> bytes \<times> error option" where
  "ReadAll (Reader b e) = (b, e)"

type_synonym Header = "string \<rightharpoonup> string list"

record http_Response =
  StatusCode :: int
  Header :: Header
  Body :: Reader

subsection \<open>Package events of aws-lambda-go: the two response shapes\<close>

record events_APIGatewayProxyResponse =
  StatusCode :: int
  Headers :: "string \<rightharpoonup> string"
  MultiValueHeaders :: Header
  Body :: string
  IsBase64Encoded :: bool

record events_ALBTargetGroupResponse =
  StatusCode :: int
  StatusDescription :: string
  Headers :: "string \<rightharpoonup> string"
  MultiValueHeaders :: Header
  Body :: string
  IsBase64Encoded :: bool

subsection \<open>Packages net/http and net/textproto: requests\<close>

text \<open>The table \<^verbatim>\<open>isTokenTable\<close>: the bytes allowed in an HTTP token.\<close>

definition isToken :: "char \<Rightarrow> bool" where
  "isToken c = (isAlnum c \<or> c \<in> set ''!#$%&*+-.^_`|~'' \<or> c = CHR 0x27)"

text \<open>\<^verbatim>\<open>validMethod\<close>: not empty, and no rune that is not a token byte (a byte above
  127 never decodes to one).\<close>

definition validMethod :: "string \<Rightarrow> bool" where
  "validMethod method = (method \<noteq> [] \<and> (\<forall>c \<in> set method. isToken c))"

text \<open>\<^verbatim>\<open>textproto.CanonicalMIMEHeaderKey\<close>: a key of token bytes only gets its first
  letter and every letter after a hyphen in upper case and all other letters in lower
  case; any other key is returned as it is.\<close>

fun canonical :: "bool \<Rightarrow> string \<Rightarrow> string" where
  "canonical upper [] = []"
| "canonical upper (c # a) =
     (let x = (of_char c :: nat);
          c' = (if upper \<and> 97 \<le> x \<and> x \<le> 122 then char_of (x - 32)
                else if \<not> upper \<and> 65 \<le> x \<and> x \<le> 90 then char_of (x + 32)
                else c)
      in c' # canonical (c' = CHR ''-'') a)"

definition CanonicalMIMEHeaderKey :: "string \<Rightarrow> string" where
  "CanonicalMIMEHeaderKey s = (if \<forall>c \<in> set s. isToken c then canonical True s else s)"

text \<open>\<^verbatim>\<open>Header.Add(key, value)\<close>: the value is appended to the values of the
  canonical key.\<close>

definition Header_Add :: "Header \<Rightarrow> string \<Rightarrow> string \<Rightarrow> Header" where
  "Header_Add h key val =
     (let k = CanonicalMIMEHeaderKey key
      in h(k \<mapsto> (case h k of None \<Rightarrow> [] | Some vs \<Rightarrow> vs) @ [val]))"

datatype Context = Background | Invocation string

text \<open>A request, as far as the adapter and a handler see it. \<open>URL\<close> is the string that
  was handed to \<^verbatim>\<open>http.NewRequest\<close> and parsed by it.\<close>

record http_Request =
  Method :: string
  URL :: string
  Header :: Header
  Body :: bytes
  ctx :: Context

text \<open>
  What the adapter takes from its surroundings: the process environment, and the two
  library functions that are not modelled, namely whether \<^verbatim>\<open>url.Parse\<close> accepts a
  raw URL, and the Unicode upper-case mapping used by \<^verbatim>\<open>strings.ToUpper\<close> on
  strings that are not ASCII.
\<close>

record world =
  LookupEnv :: "string \<Rightarrow> string option"
  url_Parse_ok :: "string \<Rightarrow> bool"
  unicodeUpper :: "string \<Rightarrow> string"

text \<open>\<^verbatim>\<open>http.NewRequest\<close>: an empty method means GET; the method must be valid and
  the URL must parse.\<close>

definition NewRequest :: "world \<Rightarrow> string \<Rightarrow> string \<Rightarrow> bytes \<Rightarrow> error + http_Request" where
  "NewRequest W method url body =
     (let method = (if method = [] then ''GET'' else method)
      in if \<not> validMethod method then Inl InvalidMethodError
         else if \<not> url_Parse_ok W url then Inl URLParseError
         else Inr \<lparr>Method = method, URL = url, Header = Map.empty, Body = body,
                   ctx = Background\<rparr>)"

text \<open>
  \<^verbatim>\<open>httptest.ResponseRecorder\<close>, with the fields of the Go struct. \<open>Body\<close> is the
  buffer, \<open>None\<close> when the pointer is nil. \<open>snapHeader\<close> is the copy of \<open>HeaderMap\<close>
  taken when the status line is written, \<open>None\<close> before that; \<open>result\<close> is the response
  that an earlier call of \<^verbatim>\<open>Result\<close> has stored. A nil map and an empty map are
  not told apart.
\<close>

record ResponseRecorder =
  Code :: int
  HeaderMap :: Header
  Body :: "bytes option"
  Flushed :: bool
  result :: "http_Response option"
  snapHeader :: "Header option"
  wroteHeader :: bool

definition NewRecorder :: ResponseRecorder where
  "NewRecorder =
     \<lparr>Code = 200, HeaderMap = Map.empty, Body = Some [], Flushed = False, result = None,
      snapHeader = None, wroteHeader = False\<rparr>"

text \<open>\<^verbatim>\<open>WriteHeader\<close>: the first call sets the code and takes the snapshot of the
  headers; later calls do nothing.\<close>

definition WriteHeader :: "ResponseRecorder \<Rightarrow> int \<Rightarrow> ResponseRecorder" where
  "WriteHeader rw code =
     (if wroteHeader rw then rw
      else rw\<lparr>Code := code, wroteHeader := True, snapHeader := Some (HeaderMap rw)\<rparr>)"

definition Flush :: "ResponseRecorder \<Rightarrow> ResponseRecorder" where
  "Flush rw = (if \<not> wroteHeader rw then WriteHeader rw 200 else rw)\<lparr>Flushed := True\<rparr>"

text \<open>\<^verbatim>\<open>Result\<close>: the stored response if there is one; otherwise the code (200 for
  0), the snapshot of the headers (the header map itself when no snapshot was taken),
  and a body that reads the buffer to its end.\<close>

definition Result :: "ResponseRecorder \<Rightarrow> http_Response" where
  "Result rw =
     (case result rw of
        Some res \<Rightarrow> res
      | None \<Rightarrow>
          \<lparr>http_Response.StatusCode = (if Code rw = 0 then 200 else Code rw),
           Header = (case snapHeader rw of None \<Rightarrow> HeaderMap rw | Some h \<Rightarrow> h),
           Body = Reader (case ResponseRecorder.Body rw of None \<Rightarrow> [] | Some b \<Rightarrow> b) None\<rparr>)"

text \<open>A handler's \<^verbatim>\<open>ServeHTTP(w, r)\<close>: the recorder as the handler leaves it, or
  \<open>None\<close> when the call does not return (it blocks for ever or panics).\<close>

type_synonym Handler = "ResponseRecorder \<Rightarrow> http_Request \<Rightarrow> ResponseRecorder option"

section \<open>The adapter: requests\<close>

definition CustomHostVariable :: string where
  "CustomHostVariable = ''GO_API_HOST''"

definition DefaultServerAddress :: string where
  "DefaultServerAddress = ''https://aws-serverless-go-api.com''"

record AdapterRequest =
  Resource :: string
  Path :: string
  HTTPMethod :: string
  Headers :: "(string, string) gomap"
  MultiValueHeaders :: "(string, string list) gomap"
  QueryStringParameters :: "(string, string) gomap"
  MultiValueQueryStringParameters :: "(string, string list) gomap"
  PathParameters :: "(string, string) gomap"
  StageVariables :: "(string, string) gomap"
  RequestContext :: string
  Body :: string
  IsBase64Encoded :: bool
  stripBasePath :: string

text \<open>The local \<^verbatim>\<open>decodedBody\<close> of \<^verbatim>\<open>ToRequest\<close>.\<close>

definition decodedBody :: "AdapterRequest \<Rightarrow> error + bytes" where
  "decodedBody ar =
     (if AdapterRequest.IsBase64Encoded ar then DecodeString (AdapterRequest.Body ar)
      else Inr (AdapterRequest.Body ar))"

text \<open>The local \<^verbatim>\<open>path\<close> of \<^verbatim>\<open>ToRequest\<close>: after the base path is stripped and the
  leading slash is ensured, and then with the server address in front.\<close>

definition strippedPath :: "AdapterRequest \<Rightarrow> string" where
  "strippedPath ar =
     (let path = Path ar;
          path = (if stripBasePath ar \<noteq> [] \<and> length (stripBasePath ar) > 1
                  then (if HasPrefix path (stripBasePath ar)
                        then Replace1 path (stripBasePath ar) [] else path)
                  else path)
      in if \<not> HasPrefix path ''/'' then ''/'' @ path else path)"

definition absolutePath :: "world \<Rightarrow> AdapterRequest \<Rightarrow> string" where
  "absolutePath W ar =
     (let serverAddress = (case LookupEnv W CustomHostVariable of
                             Some customAddress \<Rightarrow> customAddress
                           | None \<Rightarrow> DefaultServerAddress)
      in serverAddress @ strippedPath ar)"

text \<open>The two loops that build \<^verbatim>\<open>queryString\<close>.\<close>

definition addPair :: "string \<Rightarrow> string \<Rightarrow> string \<Rightarrow> string" where
  "addPair queryString q v =
     (if queryString \<noteq> [] then queryString @ ''&'' else queryString)
       @ QueryEscape q @ ''='' @ QueryEscape v"

fun multiValueLoop :: "(string, string list) gomap \<Rightarrow> string \<Rightarrow> string" where
  "multiValueLoop [] queryString = queryString"
| "multiValueLoop ((q, l) # m) queryString =
     multiValueLoop m (fold (\<lambda>v qs. addPair qs q v) l queryString)"

fun singleValueLoop :: "(string, string) gomap \<Rightarrow> string list \<Rightarrow> string \<Rightarrow> string" where
  "singleValueLoop m [] queryString = queryString"
| "singleValueLoop m (q # keys) queryString =
     singleValueLoop m keys (addPair queryString q (index_str m q))"

text \<open>The receiver after the query string has been appended to its \<open>Path\<close>.\<close>

definition appendQuery :: "AdapterRequest \<Rightarrow> AdapterRequest" where
  "appendQuery ar =
     (if length (MultiValueQueryStringParameters ar) > 0
      then ar\<lparr>Path := Path ar @ ''?'' @ multiValueLoop (MultiValueQueryStringParameters ar) []\<rparr>
      else if length (QueryStringParameters ar) > 0
      then ar\<lparr>Path := Path ar @ ''?''
                  @ singleValueLoop (QueryStringParameters ar)
                      (map fst (QueryStringParameters ar)) []\<rparr>
      else ar)"

fun addHeaders :: "(string, string) gomap \<Rightarrow> string list \<Rightarrow> Header \<Rightarrow> Header" where
  "addHeaders m [] hdr = hdr"
| "addHeaders m (h # keys) hdr = addHeaders m keys (Header_Add hdr h (index_str m h))"

text \<open>
  \<^verbatim>\<open>ToRequest\<close> returns the pair of request and error, and the receiver as the call
  leaves it. The local \<^verbatim>\<open>path\<close> is computed and never read again: the URL given to
  \<^verbatim>\<open>http.NewRequest\<close> is the receiver's \<open>Path\<close> field.
\<close>

definition ToRequest ::
  "world \<Rightarrow> AdapterRequest \<Rightarrow> (http_Request option \<times> error option) \<times> AdapterRequest" where
  "ToRequest W ar =
     (case decodedBody ar of
        Inl err \<Rightarrow> ((None, Some err), ar)
      | Inr body \<Rightarrow>
          (let path = absolutePath W ar;
               ar = appendQuery ar
           in case NewRequest W (ToUpper (unicodeUpper W) (HTTPMethod ar)) (Path ar) body of
                Inl err \<Rightarrow> ((None, Some err), ar)
              | Inr httpRequest \<Rightarrow>
                  ((Some (httpRequest\<lparr>Header :=
                            addHeaders (AdapterRequest.Headers ar)
                              (map fst (AdapterRequest.Headers ar))
                              (http_Request.Header httpRequest)\<rparr>),
                    None), ar)))"

definition StripBasePath :: "AdapterRequest \<Rightarrow> string \<Rightarrow> string \<times> AdapterRequest" where
  "StripBasePath ar basePath =
     (if Trim basePath '' '' = [] then ([], ar\<lparr>stripBasePath := []\<rparr>)
      else
        (let newBasePath = basePath;
             newBasePath = (if \<not> HasPrefix newBasePath ''/'' then ''/'' @ newBasePath
                            else newBasePath);
             newBasePath = (if HasSuffix newBasePath ''/''
                            then take (length newBasePath - 1) newBasePath
                            else newBasePath)
         in (newBasePath, ar\<lparr>stripBasePath := newBasePath\<rparr>)))"

section \<open>The adapter: responses\<close>

record AdapterResponse =
  StatusCode :: int
  StatusDescription :: string
  Headers :: "string \<rightharpoonup> string"
  MultiValueHeaders :: Header
  Body :: string
  IsBase64Encoded :: bool

definition NewAdapterResponse :: "http_Response \<Rightarrow> AdapterResponse option \<times> error option" where
  "NewAdapterResponse r =
     (case ReadAll (http_Response.Body r) of
        (rb, Some err) \<Rightarrow> (None, Some (Wrap err ''Unable to read response body''))
      | (rb, None) \<Rightarrow>
          (let (output, isBase64) =
                 (if Valid rb then (rb, False) else (EncodeToString rb, True))
           in (Some \<lparr>AdapterResponse.StatusCode = http_Response.StatusCode r,
                     StatusDescription = [],
                     Headers = Map.empty,
                     MultiValueHeaders = http_Response.Header r,
                     Body = output,
                     IsBase64Encoded = isBase64\<rparr>,
               None)))"

definition APIGatewayProxyResponse ::
  "AdapterResponse \<Rightarrow> events_APIGatewayProxyResponse \<times> error option" where
  "APIGatewayProxyResponse ar =
     (\<lparr>events_APIGatewayProxyResponse.StatusCode = AdapterResponse.StatusCode ar,
       Headers = Map.empty,
       MultiValueHeaders = AdapterResponse.MultiValueHeaders ar,
       Body = AdapterResponse.Body ar,
       IsBase64Encoded = AdapterResponse.IsBase64Encoded ar\<rparr>,
      None)"

text \<open>The conversion \<^verbatim>\<open>events.ALBTargetGroupResponse(*ar)\<close> between two struct types
  with the same fields.\<close>

definition ALBTargetGroupResponse ::
  "AdapterResponse \<Rightarrow> events_ALBTargetGroupResponse \<times> error option" where
  "ALBTargetGroupResponse ar =
     (\<lparr>events_ALBTargetGroupResponse.StatusCode = AdapterResponse.StatusCode ar,
       StatusDescription = AdapterResponse.StatusDescription ar,
       Headers = AdapterResponse.Headers ar,
       MultiValueHeaders = AdapterResponse.MultiValueHeaders ar,
       Body = AdapterResponse.Body ar,
       IsBase64Encoded = AdapterResponse.IsBase64Encoded ar\<rparr>,
      None)"

section \<open>The adapter: driving a handler\<close>

text \<open>
  \<^verbatim>\<open>Proxy\<close> calls the wrapped handler in its own goroutine frame and then receives
  from the channel the wrapper has closed, so it goes on exactly when \<^verbatim>\<open>ServeHTTP\<close>
  has returned; then it flushes the recorder and takes its result. The value is \<open>None\<close>
  when \<^verbatim>\<open>Proxy\<close> does not return.
\<close>

definition Proxy ::
  "world \<Rightarrow> Context \<Rightarrow> Handler \<Rightarrow> AdapterRequest
     \<Rightarrow> ((AdapterResponse option \<times> error option) \<times> AdapterRequest) option" where
  "Proxy W c handler ar =
     (case ToRequest W ar of
        ((_, Some err), ar) \<Rightarrow>
          Some ((None, Some (Wrap err ''Unable to convert AdapterRequest to http.Request'')), ar)
      | ((None, None), ar) \<Rightarrow> None
      | ((Some httpRequest, None), ar) \<Rightarrow>
          (case handler NewRecorder (httpRequest\<lparr>ctx := c\<rparr>) of
             None \<Rightarrow> None
           | Some w \<Rightarrow>
               (case NewAdapterResponse (Result (Flush w)) of
                  (_, Some err) \<Rightarrow>
                    Some ((None,
                           Some (Wrap err ''Unable to convert http.Response into AdapterResponse'')),
                          ar)
                | (aresp, None) \<Rightarrow> Some ((aresp, None), ar))))"

section \<open>The query string in the words of the specification\<close>

text \<open>The pairs \<open>key=value\<close>, each side escaped, and their concatenation with \<open>&\<close>
  between them.\<close>

definition multiValuePairs :: "(string, string list) gomap \<Rightarrow> string list" where
  "multiValuePairs m =
     concat (map (\<lambda>(q, l). map (\<lambda>v. QueryEscape q @ ''='' @ QueryEscape v) l) m)"

definition singleValuePairs :: "(string, string) gomap \<Rightarrow> string list" where
  "singleValuePairs m = map (\<lambda>(q, v). QueryEscape q @ ''='' @ QueryEscape v) m"

fun joinAmp :: "string list \<Rightarrow> string" where
  "joinAmp [] = []"
| "joinAmp [p] = p"
| "joinAmp (p # ps) = p @ ''&'' @ joinAmp ps"

text \<open>The way both loops extend \<^verbatim>\<open>queryString\<close>, one pair after the other.\<close>

fun joinOnto :: "string \<Rightarrow> string list \<Rightarrow> string" where
  "joinOnto qs [] = qs"
| "joinOnto qs (p # ps) = joinOnto ((if qs \<noteq> [] then qs @ ''&'' else qs) @ p) ps"

section \<open>Sample inputs\<close>

text \<open>
  A world for the examples. Its URL parser accepts the raw URLs that begin with exactly
  one slash, hold no control byte and no \<open>#\<close>, and have no \<open>%\<close> before the first \<open>?\<close>;
  \<^verbatim>\<open>url.Parse\<close> accepts all of these (no scheme, no authority, nothing to unescape in
  the path). Its Unicode mapping is never reached: the sample methods are ASCII.
\<close>

definition rootedURL :: "string \<Rightarrow> bool" where
  "rootedURL u =
     (HasPrefix u ''/'' \<and> \<not> HasPrefix u ''//''
      \<and> (\<forall>c \<in> set u. 32 \<le> (of_char c :: nat) \<and> (of_char c :: nat) \<noteq> 127 \<and> c \<noteq> CHR ''#'')
      \<and> CHR ''%'' \<notin> set (takeWhile (\<lambda>c. c \<noteq> CHR ''?'') u))"

definition sampleWorld :: "string option \<Rightarrow> world" where
  "sampleWorld host =
     \<lparr>LookupEnv = (\<lambda>name. if name = CustomHostVariable then host else None),
      url_Parse_ok = rootedURL,
      unicodeUpper = (\<lambda>s. s)\<rparr>"

text \<open>An event with the given path and method and nothing else.\<close>

definition sampleEvent :: "string \<Rightarrow> string \<Rightarrow> AdapterRequest" where
  "sampleEvent p m =
     \<lparr>Resource = [], Path = p, HTTPMethod = m, Headers = [], MultiValueHeaders = [],
      QueryStringParameters = [], MultiValueQueryStringParameters = [], PathParameters = [],
      StageVariables = [], RequestContext = [], Body = [], IsBase64Encoded = False,
      stripBasePath = []\<rparr>"

section \<open>Base64: decoding undoes encoding\<close>

lemma distinct_encodeStd: "distinct encodeStd" by (simp add: encodeStd_def)
lemma length_encodeStd: "length encodeStd = 64" by (simp add: encodeStd_def)

lemma indexFrom_nth: "distinct es \<Longrightarrow> i < length es \<Longrightarrow> indexFrom k es (es ! i) = Some (k + i)"
proof (induction es arbitrary: i k)
  case Nil then show ?case by simp
next
  case (Cons e es)
  show ?case
  proof (cases i)
    case 0 then show ?thesis by simp
  next
    case (Suc j)
    with Cons.prems have "es ! j \<noteq> e" "distinct es" "j < length es" by auto
    with Cons.IH[of j "Suc k"] Suc show ?thesis by auto
  qed
qed

lemma indexFrom_None: "c \<notin> set es \<Longrightarrow> indexFrom k es c = None"
  by (induction es arbitrary: k) auto

lemma decodeMap_encode6: "decodeMap (encode6 v) = Some (v mod 64)"
  using indexFrom_nth[OF distinct_encodeStd, of "v mod 64" 0]
  by (simp add: decodeMap_def encode6_def length_encodeStd)



lemma pack24:
  assumes "(v::nat) < 16777216"
  shows "v div 262144 mod 64 * 262144 + v div 4096 mod 64 * 4096 + v div 64 mod 64 * 64 + v mod 64 = v"
proof -
  have d1: "v div 4096 = v div 64 div 64" by (simp add: div_mult2_eq)
  have d2: "v div 262144 = v div 4096 div 64" by (simp add: div_mult2_eq)
  have small: "v div 262144 < 64" using assms by simp
  have e0: "v = v div 64 * 64 + v mod 64" by simp
  have e1: "v div 64 = v div 4096 * 64 + v div 64 mod 64" unfolding d1 by simp
  have e2: "v div 4096 = v div 262144 * 64 + v div 4096 mod 64" unfolding d2 by simp
  have e3: "v div 262144 mod 64 = v div 262144" using small by simp
  have "v = ((v div 262144 * 64 + v div 4096 mod 64) * 64 + v div 64 mod 64) * 64 + v mod 64"
    using e0 e1 e2 by simp
  then show ?thesis unfolding e3 by (simp add: algebra_simps)
qed


lemma bytes3:
  assumes "a < 256" "b < 256" "c < (256::nat)"
  shows "(a * 65536 + b * 256 + c) div 65536 mod 256 = a"
    "(a * 65536 + b * 256 + c) div 256 mod 256 = b"
    "(a * 65536 + b * 256 + c) mod 256 = c"
proof -
  have r: "b * 256 + c < 65536" using assms by simp
  have e1: "a * 65536 + b * 256 + c = a * 65536 + (b * 256 + c)" by simp
  have "(a * 65536 + (b * 256 + c)) div 65536 = a + (b * 256 + c) div 65536"
    by (rule div_mult_self3) simp
  with r have "(a * 65536 + (b * 256 + c)) div 65536 = a" by simp
  with e1 assms show "(a * 65536 + b * 256 + c) div 65536 mod 256 = a" by simp
  have e2: "a * 65536 + b * 256 + c = (a * 256 + b) * 256 + c" by simp
  have "((a * 256 + b) * 256 + c) div 256 = (a * 256 + b) + c div 256"
    by (rule div_mult_self3) simp
  with assms have "((a * 256 + b) * 256 + c) div 256 = a * 256 + b" by simp
  with e2 have d: "(a * 65536 + b * 256 + c) div 256 = a * 256 + b" by simp
  have "(a * 256 + b) mod 256 = b mod 256" by (rule mod_mult_self3)
  with d assms show "(a * 65536 + b * 256 + c) div 256 mod 256 = b" by simp
  have "(a * 65536 + b * 256 + c) mod 256 = c mod 256"
    by (subst e2) (rule mod_mult_self3)
  also have "c mod 256 = c" using assms by simp
  finally show "(a * 65536 + b * 256 + c) mod 256 = c" .
qed

lemma char_of_mod: "char_of (n mod 256 :: nat) = char_of n"
  by (metis char_of_char of_char_of)

lemma assemble_four:
  "assemble [d0, d1, d2, d3] =
     [char_of ((d0 * 262144 + d1 * 4096 + d2 * 64 + d3) div 65536),
      char_of ((d0 * 262144 + d1 * 4096 + d2 * 64 + d3) div 256),
      char_of (d0 * 262144 + d1 * 4096 + d2 * 64 + d3)]"
  by (simp add: assemble_def Let_def)

lemma assemble_three:
  "assemble [d0, d1, d2] =
     [char_of ((d0 * 262144 + d1 * 4096 + d2 * 64 + 0) div 65536),
      char_of ((d0 * 262144 + d1 * 4096 + d2 * 64 + 0) div 256)]"
  by (simp add: assemble_def Let_def)

lemma assemble_two:
  "assemble [d0, d1] = [char_of ((d0 * 262144 + d1 * 4096 + 0 * 64 + 0) div 65536)]"
  by (simp add: assemble_def Let_def)

lemma quantum_bytes:
  assumes "a < 256" "b < 256" "c < (256::nat)" and v: "v = a * 65536 + b * 256 + c"
  shows "v div 262144 mod 64 * 262144 + v div 4096 mod 64 * 4096 + v div 64 mod 64 * 64 + v mod 64 = v"
    and "(char_of (v div 65536) :: char) = char_of a"
    and "(char_of (v div 256) :: char) = char_of b"
    and "(char_of v :: char) = char_of c"
proof -
  have lt: "v < 16777216" using assms by simp
  show "v div 262144 mod 64 * 262144 + v div 4096 mod 64 * 4096 + v div 64 mod 64 * 64 + v mod 64 = v"
    by (rule pack24[OF lt])
  have "(char_of (v div 65536) :: char) = char_of (v div 65536 mod 256)" by (simp only: char_of_mod)
  also have "v div 65536 mod 256 = a" unfolding v by (rule bytes3(1)[OF assms(1-3)])
  finally show "(char_of (v div 65536) :: char) = char_of a" .
  have "(char_of (v div 256) :: char) = char_of (v div 256 mod 256)" by (simp only: char_of_mod)
  also have "v div 256 mod 256 = b" unfolding v by (rule bytes3(2)[OF assms(1-3)])
  finally show "(char_of (v div 256) :: char) = char_of b" .
  have "(char_of v :: char) = char_of (v mod 256)" by (simp only: char_of_mod)
  also have "v mod 256 = c" unfolding v by (rule bytes3(3)[OF assms(1-3)])
  finally show "(char_of v :: char) = char_of c" .
qed


lemma decodeLoop_quantum:
  "decodeLoop [] (encode6 v0 # encode6 v1 # encode6 v2 # encode6 v3 # src) =
     (case decodeLoop [] src of Inl e \<Rightarrow> Inl e
      | Inr out \<Rightarrow> Inr (assemble [v0 mod 64, v1 mod 64, v2 mod 64, v3 mod 64] @ out))"
  by (simp add: decodeMap_encode6 split: sum.splits)

lemma of_char_lt: "(of_char c :: nat) < 256"
proof -
  have "(of_char c :: nat) mod 256 < 256" by (rule mod_less_divisor) simp
  then show ?thesis by simp
qed

lemma decodeMap_pad: "decodeMap CHR ''='' = None"
  by (simp add: decodeMap_def encodeStd_def)

lemma decodeLoop_pad1:
  "decodeLoop [] [encode6 v0, encode6 v1, encode6 v2, CHR ''=''] =
     Inr (assemble [v0 mod 64, v1 mod 64, v2 mod 64])"
  by (simp add: decodeMap_encode6 decodeMap_pad isNewline_def)

lemma decodeLoop_pad2:
  "decodeLoop [] [encode6 v0, encode6 v1, CHR ''='', CHR ''=''] =
     Inr (assemble [v0 mod 64, v1 mod 64])"
  by (simp add: decodeMap_encode6 decodeMap_pad isNewline_def)

lemma DecodeString_EncodeToString: "DecodeString (EncodeToString bs) = Inr bs"
  unfolding DecodeString_def
proof (induction bs rule: EncodeToString.induct)
  case (1 a b c src)
  define v where "v = (of_char a :: nat) * 65536 + of_char b * 256 + of_char c"
  have q: "v div 262144 mod 64 * 262144 + v div 4096 mod 64 * 4096 + v div 64 mod 64 * 64 + v mod 64 = v"
      "(char_of (v div 65536) :: char) = a" "(char_of (v div 256) :: char) = b" "(char_of v :: char) = c"
    using quantum_bytes[OF of_char_lt of_char_lt of_char_lt v_def] by (simp_all only: char_of_char)
  have "EncodeToString (a # b # c # src) =
      encode6 (v div 262144) # encode6 (v div 4096) # encode6 (v div 64) # encode6 v # EncodeToString src"
    by (simp add: v_def Let_def)
  then show ?case
    by (simp only: decodeLoop_quantum "1.IH" sum.case assemble_four q append_Cons append_Nil)
next
  case (2 a b)
  define v where "v = (of_char a :: nat) * 65536 + of_char b * 256 + 0"
  have z: "v mod 64 = 0" by (simp add: v_def)
  have q: "v div 262144 mod 64 * 262144 + v div 4096 mod 64 * 4096 + v div 64 mod 64 * 64 + v mod 64 = v"
      "(char_of (v div 65536) :: char) = a" "(char_of (v div 256) :: char) = b"
    using quantum_bytes[OF of_char_lt of_char_lt _ v_def] by (simp_all only: char_of_char)
  have "EncodeToString [a, b] =
      [encode6 (v div 262144), encode6 (v div 4096), encode6 (v div 64), CHR ''='']"
    by (simp add: v_def Let_def)
  then show ?case
    using q(1) by (simp only: decodeLoop_pad1 assemble_three z q(2,3) add_0_right mult_zero_left)
next
  case (3 a)
  define v where "v = (of_char a :: nat) * 65536 + 0 * 256 + 0"
  have z: "v mod 64 = 0" "v div 64 mod 64 = 0" by (simp_all add: v_def)
  have q: "v div 262144 mod 64 * 262144 + v div 4096 mod 64 * 4096 + v div 64 mod 64 * 64 + v mod 64 = v"
      "(char_of (v div 65536) :: char) = a"
    using quantum_bytes[OF of_char_lt _ _ v_def] by (simp_all only: char_of_char)
  have "EncodeToString [a] = [encode6 (v div 262144), encode6 (v div 4096), CHR ''='', CHR ''='']"
    by (simp add: v_def Let_def)
  then show ?case
    using q(1) by (simp only: decodeLoop_pad2 assemble_two z q(2) add_0_right mult_zero_left)
next
  case 4
  then show ?case by simp
qed

section \<open>Responses\<close>

text \<open>
  C3. For a response whose body reads to the end as the bytes \<open>rb\<close>:
  when \<open>rb\<close> is valid UTF-8 the flag is false and the body is \<open>rb\<close> itself; otherwise the
  flag is true and decoding the body as base64 gives \<open>rb\<close> back. The response's
  headers (any Content-Type among them) play no part: with any other header set the
  body and the flag are the same.
\<close>

theorem NewAdapterResponse_encoding:
  assumes "ReadAll (http_Response.Body r) = (rb, None)"
  shows "\<exists>resp. NewAdapterResponse r = (Some resp, None)
           \<and> (Valid rb \<longrightarrow> \<not> AdapterResponse.IsBase64Encoded resp \<and> AdapterResponse.Body resp = rb)
           \<and> (\<not> Valid rb \<longrightarrow> AdapterResponse.IsBase64Encoded resp
                  \<and> DecodeString (AdapterResponse.Body resp) = Inr rb)
           \<and> (\<forall>h. \<exists>resp'. NewAdapterResponse (r\<lparr>http_Response.Header := h\<rparr>) = (Some resp', None)
                  \<and> AdapterResponse.Body resp' = AdapterResponse.Body resp
                  \<and> AdapterResponse.IsBase64Encoded resp' = AdapterResponse.IsBase64Encoded resp)"
  using assms by (simp add: NewAdapterResponse_def DecodeString_EncodeToString)

theorem NewAdapterResponse_encoding_witness:
  "(\<exists>resp. NewAdapterResponse
             \<lparr>http_Response.StatusCode = 200, Header = [''Content-Type'' \<mapsto> [''image/png'']],
              Body = Reader ''Hello World!'' None\<rparr> = (Some resp, None)
          \<and> \<not> AdapterResponse.IsBase64Encoded resp \<and> AdapterResponse.Body resp = ''Hello World!'')
   \<and> (\<exists>resp. NewAdapterResponse
             \<lparr>http_Response.StatusCode = 200, Header = [''Content-Type'' \<mapsto> [''text/plain'']],
              Body = Reader [CHR 0xFF, CHR 0x00] None\<rparr> = (Some resp, None)
          \<and> AdapterResponse.IsBase64Encoded resp
          \<and> DecodeString (AdapterResponse.Body resp) = Inr [CHR 0xFF, CHR 0x00])"
proof -
  have v1: "Valid ''Hello World!''" by simp
  have v2: "\<not> Valid [CHR 0xFF, CHR 0x00]" by simp
  show ?thesis
    using NewAdapterResponse_encoding
            [of "\<lparr>http_Response.StatusCode = 200, Header = [''Content-Type'' \<mapsto> [''image/png'']],
                 Body = Reader ''Hello World!'' None\<rparr>" "''Hello World!''"]
          NewAdapterResponse_encoding
            [of "\<lparr>http_Response.StatusCode = 200, Header = [''Content-Type'' \<mapsto> [''text/plain'']],
                 Body = Reader [CHR 0xFF, CHR 0x00] None\<rparr>" "[CHR 0xFF, CHR 0x00]"]
          v1 v2
    by auto
qed

text \<open>
  C6. For a response whose body reads to the end, the adapter's response has an empty
  single-value header map, an empty status description, and the response's headers as
  its multi-value header map. The API Gateway shape made from any adapter response,
  whatever its single-value headers, has an empty single-value header map and that
  response's multi-value headers, status code, body and flag (the shape has no status
  description). The load balancer shape made from any adapter response has the same
  six fields.
\<close>

theorem response_shapes:
  assumes "ReadAll (http_Response.Body r) = (rb, None)"
  shows "\<exists>resp. NewAdapterResponse r = (Some resp, None)
           \<and> AdapterResponse.Headers resp = Map.empty
           \<and> AdapterResponse.MultiValueHeaders resp = http_Response.Header r
           \<and> AdapterResponse.StatusDescription resp = []
           \<and> AdapterResponse.StatusCode resp = http_Response.StatusCode r
           \<and> snd (APIGatewayProxyResponse resp) = None
           \<and> events_APIGatewayProxyResponse.Headers (fst (APIGatewayProxyResponse resp)) = Map.empty
           \<and> events_APIGatewayProxyResponse.MultiValueHeaders (fst (APIGatewayProxyResponse resp))
               = http_Response.Header r
           \<and> events_APIGatewayProxyResponse.StatusCode (fst (APIGatewayProxyResponse resp))
               = http_Response.StatusCode r
           \<and> events_APIGatewayProxyResponse.Body (fst (APIGatewayProxyResponse resp))
               = AdapterResponse.Body resp
           \<and> events_APIGatewayProxyResponse.IsBase64Encoded (fst (APIGatewayProxyResponse resp))
               = AdapterResponse.IsBase64Encoded resp
           \<and> (\<forall>ar. snd (APIGatewayProxyResponse ar) = None
                \<and> events_APIGatewayProxyResponse.Headers (fst (APIGatewayProxyResponse ar))
                     = Map.empty
                \<and> events_APIGatewayProxyResponse.MultiValueHeaders (fst (APIGatewayProxyResponse ar))
                     = AdapterResponse.MultiValueHeaders ar
                \<and> events_APIGatewayProxyResponse.StatusCode (fst (APIGatewayProxyResponse ar))
                     = AdapterResponse.StatusCode ar
                \<and> events_APIGatewayProxyResponse.Body (fst (APIGatewayProxyResponse ar))
                     = AdapterResponse.Body ar
                \<and> events_APIGatewayProxyResponse.IsBase64Encoded (fst (APIGatewayProxyResponse ar))
                     = AdapterResponse.IsBase64Encoded ar)
           \<and> (\<forall>ar. snd (ALBTargetGroupResponse ar) = None
                \<and> events_ALBTargetGroupResponse.StatusCode (fst (ALBTargetGroupResponse ar))
                     = AdapterResponse.StatusCode ar
                \<and> events_ALBTargetGroupResponse.StatusDescription (fst (ALBTargetGroupResponse ar))
                     = AdapterResponse.StatusDescription ar
                \<and> events_ALBTargetGroupResponse.Headers (fst (ALBTargetGroupResponse ar))
                     = AdapterResponse.Headers ar
                \<and> events_ALBTargetGroupResponse.MultiValueHeaders (fst (ALBTargetGroupResponse ar))
                     = AdapterResponse.MultiValueHeaders ar
                \<and> events_ALBTargetGroupResponse.Body (fst (ALBTargetGroupResponse ar))
                     = AdapterResponse.Body ar
                \<and> events_ALBTargetGroupResponse.IsBase64Encoded (fst (ALBTargetGroupResponse ar))
                     = AdapterResponse.IsBase64Encoded ar)"
  using assms
  by (simp add: NewAdapterResponse_def APIGatewayProxyResponse_def ALBTargetGroupResponse_def
        split: prod.splits)

theorem response_shapes_witness:
  "(\<exists>resp. NewAdapterResponse
            \<lparr>http_Response.StatusCode = 200, Header = [''Set-Cookie'' \<mapsto> [''a=1'', ''b=2'']],
             Body = Reader ''Hello World!'' None\<rparr> = (Some resp, None)
     \<and> AdapterResponse.Headers resp = Map.empty
     \<and> AdapterResponse.MultiValueHeaders resp = [''Set-Cookie'' \<mapsto> [''a=1'', ''b=2'']]
     \<and> AdapterResponse.StatusDescription resp = []
     \<and> events_APIGatewayProxyResponse.Headers (fst (APIGatewayProxyResponse resp)) = Map.empty
     \<and> events_APIGatewayProxyResponse.MultiValueHeaders (fst (APIGatewayProxyResponse resp))
          = [''Set-Cookie'' \<mapsto> [''a=1'', ''b=2'']]
     \<and> events_ALBTargetGroupResponse.Body (fst (ALBTargetGroupResponse resp))
          = AdapterResponse.Body resp)
   \<and> events_APIGatewayProxyResponse.Headers
        (fst (APIGatewayProxyResponse
               \<lparr>AdapterResponse.StatusCode = 404, StatusDescription = ''404 Not Found'',
                Headers = [''Content-Type'' \<mapsto> ''text/html''],
                MultiValueHeaders = [''Content-Type'' \<mapsto> [''text/html'']],
                Body = ''gone'', IsBase64Encoded = False\<rparr>)) = Map.empty
   \<and> events_APIGatewayProxyResponse.MultiValueHeaders
        (fst (APIGatewayProxyResponse
               \<lparr>AdapterResponse.StatusCode = 404, StatusDescription = ''404 Not Found'',
                Headers = [''Content-Type'' \<mapsto> ''text/html''],
                MultiValueHeaders = [''Content-Type'' \<mapsto> [''text/html'']],
                Body = ''gone'', IsBase64Encoded = False\<rparr>))
       = [''Content-Type'' \<mapsto> [''text/html'']]
   \<and> events_ALBTargetGroupResponse.Headers
        (fst (ALBTargetGroupResponse
               \<lparr>AdapterResponse.StatusCode = 404, StatusDescription = ''404 Not Found'',
                Headers = [''Content-Type'' \<mapsto> ''text/html''],
                MultiValueHeaders = [''Content-Type'' \<mapsto> [''text/html'']],
                Body = ''gone'', IsBase64Encoded = False\<rparr>))
       = [''Content-Type'' \<mapsto> ''text/html'']"
  using response_shapes
          [of "\<lparr>http_Response.StatusCode = 200, Header = [''Set-Cookie'' \<mapsto> [''a=1'', ''b=2'']],
               Body = Reader ''Hello World!'' None\<rparr>" "''Hello World!''"]
  by auto

section \<open>Requests\<close>

lemma decodeLoop_error: "decodeLoop dbuf s = Inl e \<Longrightarrow> e = CorruptInputError"
  by (induction dbuf s rule: decodeLoop.induct)
     (auto split: option.splits if_splits sum.splits list.splits)

lemma DecodeString_error: "DecodeString s = Inl e \<Longrightarrow> e = CorruptInputError"
  unfolding DecodeString_def by (rule decodeLoop_error)

lemma ToRequest_Some:
  assumes "ToRequest W ar = ((Some req, e), ar')"
  shows "\<exists>body. decodedBody ar = Inr body
           \<and> NewRequest W (ToUpper (unicodeUpper W) (HTTPMethod (appendQuery ar)))
                 (Path (appendQuery ar)) body
               = Inr (req\<lparr>http_Request.Header := Map.empty\<rparr>)
           \<and> http_Request.Header req
               = addHeaders (AdapterRequest.Headers (appendQuery ar))
                   (map fst (AdapterRequest.Headers (appendQuery ar))) Map.empty
           \<and> e = None \<and> ar' = appendQuery ar"
  using assms
  by (auto simp: ToRequest_def Let_def NewRequest_def split: sum.splits if_splits)

lemma NewRequest_fields:
  "NewRequest W m u b = Inr r \<Longrightarrow> URL r = u \<and> http_Request.Body r = b
     \<and> Method r = (if m = [] then ''GET'' else m) \<and> url_Parse_ok W u
     \<and> validMethod (if m = [] then ''GET'' else m)"
  by (auto simp: NewRequest_def Let_def split: if_splits)

lemma appendQuery_other [simp]:
  "HTTPMethod (appendQuery ar) = HTTPMethod ar"
  "AdapterRequest.Headers (appendQuery ar) = AdapterRequest.Headers ar"
  "AdapterRequest.MultiValueHeaders (appendQuery ar) = AdapterRequest.MultiValueHeaders ar"
  "AdapterRequest.Body (appendQuery ar) = AdapterRequest.Body ar"
  "AdapterRequest.IsBase64Encoded (appendQuery ar) = AdapterRequest.IsBase64Encoded ar"
  "stripBasePath (appendQuery ar) = stripBasePath ar"
  "QueryStringParameters (appendQuery ar) = QueryStringParameters ar"
  "MultiValueQueryStringParameters (appendQuery ar) = MultiValueQueryStringParameters ar"
  by (simp_all add: appendQuery_def)

lemma ToRequest_Some_Body:
  assumes "ToRequest W ar = ((Some req, e), ar')"
  shows "decodedBody ar = Inr (http_Request.Body req)"
proof -
  from ToRequest_Some[OF assms] obtain body where
    d: "decodedBody ar = Inr body" and
    n: "NewRequest W (ToUpper (unicodeUpper W) (HTTPMethod (appendQuery ar)))
          (Path (appendQuery ar)) body = Inr (req\<lparr>http_Request.Header := Map.empty\<rparr>)"
    by blast
  from NewRequest_fields[OF n] have "http_Request.Body req = body" by simp
  with d show ?thesis by simp
qed


text \<open>
  C1. The event with path \<open>/api/hello\<close> and method \<open>get\<close>, with the host variable set
  to \<open>https://example.com\<close>: the call succeeds with method \<open>GET\<close>, but the URL of the
  request is \<open>/api/hello\<close>. The absolute URL \<open>https://example.com/api/hello\<close> is the
  value of the local \<^verbatim>\<open>path\<close>, which the request is not built from.
\<close>

theorem ToRequest_hello:
  "ToRequest (sampleWorld (Some ''https://example.com'')) (sampleEvent ''/api/hello'' ''get'')
     = ((Some \<lparr>Method = ''GET'', URL = ''/api/hello'', Header = Map.empty, Body = [],
               ctx = Background\<rparr>, None),
        sampleEvent ''/api/hello'' ''get'')
   \<and> absolutePath (sampleWorld (Some ''https://example.com'')) (sampleEvent ''/api/hello'' ''get'')
       = ''https://example.com/api/hello''"
  by (simp add: ToRequest_def sampleWorld_def sampleEvent_def decodedBody_def absolutePath_def
        strippedPath_def appendQuery_def NewRequest_def ToUpper_def upperByte_def validMethod_def
        isToken_def isAlnum_def rootedURL_def HasPrefix_def CustomHostVariable_def Let_def
        char_of_def bit_iff_odd)


text \<open>
  C2. With the base path \<open>/base\<close> configured through \<^verbatim>\<open>StripBasePath\<close> and the event
  path \<open>/base/hello\<close>: the local \<^verbatim>\<open>path\<close> has the prefix removed once
  (\<open>/hello\<close>), but the URL of the request is still \<open>/base/hello\<close>.
\<close>

theorem ToRequest_base_path:
  "fst (StripBasePath (sampleEvent ''/base/hello'' ''get'') ''/base'') = ''/base''
   \<and> stripBasePath (snd (StripBasePath (sampleEvent ''/base/hello'' ''get'') ''/base'')) = ''/base''
   \<and> strippedPath (snd (StripBasePath (sampleEvent ''/base/hello'' ''get'') ''/base'')) = ''/hello''
   \<and> fst (ToRequest (sampleWorld None)
             (snd (StripBasePath (sampleEvent ''/base/hello'' ''get'') ''/base'')))
       = (Some \<lparr>Method = ''GET'', URL = ''/base/hello'', Header = Map.empty, Body = [],
                ctx = Background\<rparr>, None)"
  by (simp add: ToRequest_def sampleWorld_def sampleEvent_def decodedBody_def absolutePath_def
        strippedPath_def appendQuery_def NewRequest_def ToUpper_def upperByte_def validMethod_def
        isToken_def isAlnum_def rootedURL_def HasPrefix_def HasSuffix_def CustomHostVariable_def Let_def
        StripBasePath_def Trim_def char_of_def bit_iff_odd)

text \<open>
  C4. Without the base64 flag, \<^verbatim>\<open>ToRequest\<close> produces a request whose body is the
  event's body text, byte for byte, whenever the upper-cased method is empty or valid
  and the URL parses; and no request it produces has another body. With the flag and a
  body that decodes, the same holds with the decoded bytes, and in particular with the
  bytes \<open>bs\<close> when the event's body is the encoding of \<open>bs\<close>. With the flag and a body
  that does not decode, the call returns no request and the decoder's error (the
  specification's MalformedBody), and leaves the receiver as it was.
\<close>

theorem ToRequest_body:
  "(\<not> AdapterRequest.IsBase64Encoded ar \<longrightarrow>
      (\<forall>req e ar'. ToRequest W ar = ((Some req, e), ar') \<longrightarrow>
         http_Request.Body req = AdapterRequest.Body ar))
   \<and> (\<not> AdapterRequest.IsBase64Encoded ar
         \<longrightarrow> (let m = ToUpper (unicodeUpper W) (HTTPMethod ar) in m = [] \<or> validMethod m)
         \<longrightarrow> url_Parse_ok W (Path (appendQuery ar))
         \<longrightarrow> (\<exists>req. ToRequest W ar = ((Some req, None), appendQuery ar)
                 \<and> http_Request.Body req = AdapterRequest.Body ar))
   \<and> (AdapterRequest.IsBase64Encoded ar \<longrightarrow>
      (\<forall>bs req e ar'. DecodeString (AdapterRequest.Body ar) = Inr bs
         \<longrightarrow> ToRequest W ar = ((Some req, e), ar') \<longrightarrow> http_Request.Body req = bs))
   \<and> (AdapterRequest.IsBase64Encoded ar \<longrightarrow>
      (\<forall>bs. DecodeString (AdapterRequest.Body ar) = Inr bs
         \<longrightarrow> (let m = ToUpper (unicodeUpper W) (HTTPMethod ar) in m = [] \<or> validMethod m)
         \<longrightarrow> url_Parse_ok W (Path (appendQuery ar))
         \<longrightarrow> (\<exists>req. ToRequest W ar = ((Some req, None), appendQuery ar)
                 \<and> http_Request.Body req = bs)))
   \<and> (AdapterRequest.IsBase64Encoded ar \<longrightarrow>
      (\<forall>bs req e ar'. AdapterRequest.Body ar = EncodeToString bs
         \<longrightarrow> ToRequest W ar = ((Some req, e), ar') \<longrightarrow> http_Request.Body req = bs))
   \<and> (AdapterRequest.IsBase64Encoded ar \<longrightarrow>
      (\<forall>bs. AdapterRequest.Body ar = EncodeToString bs
         \<longrightarrow> (let m = ToUpper (unicodeUpper W) (HTTPMethod ar) in m = [] \<or> validMethod m)
         \<longrightarrow> url_Parse_ok W (Path (appendQuery ar))
         \<longrightarrow> (\<exists>req. ToRequest W ar = ((Some req, None), appendQuery ar)
                 \<and> http_Request.Body req = bs)))
   \<and> (AdapterRequest.IsBase64Encoded ar \<longrightarrow>
      (\<forall>err. DecodeString (AdapterRequest.Body ar) = Inl err
         \<longrightarrow> ToRequest W ar = ((None, Some CorruptInputError), ar)))"
proof -
  have g: "validMethod ''GET''"
    by (simp add: validMethod_def isToken_def isAlnum_def)
  have produced: "\<exists>req. ToRequest W ar = ((Some req, None), appendQuery ar)
                    \<and> http_Request.Body req = bs"
    if "decodedBody ar = Inr bs"
      "let m = ToUpper (unicodeUpper W) (HTTPMethod ar) in m = [] \<or> validMethod m"
      "url_Parse_ok W (Path (appendQuery ar))" for bs
    using that g by (auto simp: ToRequest_def Let_def NewRequest_def)
  have body: "http_Request.Body req = bs"
    if "decodedBody ar = Inr bs" "ToRequest W ar = ((Some req, e), ar')" for bs req e ar'
    using ToRequest_Some_Body[OF that(2)] that(1) by simp
  have plain: "decodedBody ar = Inr (AdapterRequest.Body ar)"
    if "\<not> AdapterRequest.IsBase64Encoded ar"
    using that by (simp add: decodedBody_def)
  have coded: "decodedBody ar = DecodeString (AdapterRequest.Body ar)"
    if "AdapterRequest.IsBase64Encoded ar"
    using that by (simp add: decodedBody_def)
  show ?thesis
  proof (intro conjI impI allI)
    fix req e ar'
    assume "\<not> AdapterRequest.IsBase64Encoded ar" "ToRequest W ar = ((Some req, e), ar')"
    then show "http_Request.Body req = AdapterRequest.Body ar"
      using body plain by blast
  next
    assume "\<not> AdapterRequest.IsBase64Encoded ar"
      "let m = ToUpper (unicodeUpper W) (HTTPMethod ar) in m = [] \<or> validMethod m"
      "url_Parse_ok W (Path (appendQuery ar))"
    then show "\<exists>req. ToRequest W ar = ((Some req, None), appendQuery ar)
                 \<and> http_Request.Body req = AdapterRequest.Body ar"
      using produced[of "AdapterRequest.Body ar"] plain by blast
  next
    fix bs req e ar'
    assume "AdapterRequest.IsBase64Encoded ar" "DecodeString (AdapterRequest.Body ar) = Inr bs"
      "ToRequest W ar = ((Some req, e), ar')"
    then show "http_Request.Body req = bs"
      using body[of bs req e ar'] coded by simp
  next
    fix bs
    assume "AdapterRequest.IsBase64Encoded ar" "DecodeString (AdapterRequest.Body ar) = Inr bs"
      "let m = ToUpper (unicodeUpper W) (HTTPMethod ar) in m = [] \<or> validMethod m"
      "url_Parse_ok W (Path (appendQuery ar))"
    then show "\<exists>req. ToRequest W ar = ((Some req, None), appendQuery ar)
                 \<and> http_Request.Body req = bs"
      using produced[of bs] coded by simp
  next
    fix bs req e ar'
    assume "AdapterRequest.IsBase64Encoded ar" "AdapterRequest.Body ar = EncodeToString bs"
      "ToRequest W ar = ((Some req, e), ar')"
    then show "http_Request.Body req = bs"
      using body[of bs req e ar'] coded by (simp add: DecodeString_EncodeToString)
  next
    fix bs
    assume "AdapterRequest.IsBase64Encoded ar" "AdapterRequest.Body ar = EncodeToString bs"
      "let m = ToUpper (unicodeUpper W) (HTTPMethod ar) in m = [] \<or> validMethod m"
      "url_Parse_ok W (Path (appendQuery ar))"
    then show "\<exists>req. ToRequest W ar = ((Some req, None), appendQuery ar)
                 \<and> http_Request.Body req = bs"
      using produced[of bs] coded by (simp add: DecodeString_EncodeToString)
  next
    fix err
    assume "AdapterRequest.IsBase64Encoded ar" "DecodeString (AdapterRequest.Body ar) = Inl err"
    then show "ToRequest W ar = ((None, Some CorruptInputError), ar)"
      using DecodeString_error[of "AdapterRequest.Body ar" err]
      by (simp add: ToRequest_def decodedBody_def)
  qed
qed

theorem ToRequest_body_witness:
  "(\<exists>req. ToRequest (sampleWorld None)
            ((sampleEvent ''/upload'' ''post'')\<lparr>AdapterRequest.Body := ''plain text''\<rparr>)
          = ((Some req, None),
             (sampleEvent ''/upload'' ''post'')\<lparr>AdapterRequest.Body := ''plain text''\<rparr>)
        \<and> http_Request.Body req = ''plain text'')
   \<and> (\<exists>req. ToRequest (sampleWorld None)
            ((sampleEvent ''/upload'' ''post'')\<lparr>AdapterRequest.Body := ''SGVsbG8='',
               AdapterRequest.IsBase64Encoded := True\<rparr>)
          = ((Some req, None),
             (sampleEvent ''/upload'' ''post'')\<lparr>AdapterRequest.Body := ''SGVsbG8='',
               AdapterRequest.IsBase64Encoded := True\<rparr>)
        \<and> http_Request.Body req = ''Hello'')
   \<and> ToRequest (sampleWorld None)
        ((sampleEvent ''/upload'' ''post'')\<lparr>AdapterRequest.Body := ''SGVsbG8'',
           AdapterRequest.IsBase64Encoded := True\<rparr>)
      = ((None, Some CorruptInputError),
         (sampleEvent ''/upload'' ''post'')\<lparr>AdapterRequest.Body := ''SGVsbG8'',
           AdapterRequest.IsBase64Encoded := True\<rparr>)"
proof -
  have d1: "DecodeString ''SGVsbG8='' = Inr ''Hello''"
    by (simp add: DecodeString_def decodeMap_def encodeStd_def assemble_def isNewline_def Let_def
          char_of_def bit_iff_odd)
  have d2: "DecodeString ''SGVsbG8'' = Inl CorruptInputError"
    by (simp add: DecodeString_def decodeMap_def encodeStd_def assemble_def isNewline_def Let_def
          char_of_def bit_iff_odd)
  show ?thesis
    using ToRequest_body[of "(sampleEvent ''/upload'' ''post'')\<lparr>AdapterRequest.Body := ''plain text''\<rparr>"
               "sampleWorld None"]
      ToRequest_body[of "(sampleEvent ''/upload'' ''post'')\<lparr>AdapterRequest.Body := ''SGVsbG8='',
               AdapterRequest.IsBase64Encoded := True\<rparr>" "sampleWorld None"]
      ToRequest_body[of "(sampleEvent ''/upload'' ''post'')\<lparr>AdapterRequest.Body := ''SGVsbG8'',
               AdapterRequest.IsBase64Encoded := True\<rparr>" "sampleWorld None"]
      d1 d2
    by (simp add: sampleWorld_def sampleEvent_def appendQuery_def ToUpper_def
          upperByte_def validMethod_def isToken_def isAlnum_def rootedURL_def HasPrefix_def Let_def
          char_of_def bit_iff_odd)
qed

section \<open>The query string\<close>

lemma addPair_joinOnto: "addPair qs q v = joinOnto qs [QueryEscape q @ ''='' @ QueryEscape v]"
  by (simp add: addPair_def)

lemma joinOnto_append: "joinOnto qs (ps @ ps') = joinOnto (joinOnto qs ps) ps'"
  by (induction ps arbitrary: qs) simp_all

lemma fold_addPair:
  "fold (\<lambda>v qs. addPair qs q v) l qs
     = joinOnto qs (map (\<lambda>v. QueryEscape q @ ''='' @ QueryEscape v) l)"
  by (induction l arbitrary: qs) (simp_all add: addPair_def)

lemma multiValueLoop_joinOnto: "multiValueLoop m qs = joinOnto qs (multiValuePairs m)"
proof (induction m arbitrary: qs)
  case Nil
  then show ?case by (simp add: multiValuePairs_def)
next
  case (Cons e m)
  obtain q l where e: "e = (q, l)" by (cases e)
  have "multiValuePairs (e # m)
          = map (\<lambda>v. QueryEscape q @ ''='' @ QueryEscape v) l @ multiValuePairs m"
    by (simp add: multiValuePairs_def e)
  then show ?case
    by (simp add: e Cons.IH fold_addPair joinOnto_append)
qed

lemma index_str_distinct:
  "distinct (map fst m) \<Longrightarrow> (q, v) \<in> set m \<Longrightarrow> index_str m q = v"
  by (simp add: index_str_def)

lemma singleValueLoop_joinOnto:
  assumes "distinct (map fst m)" "set ps \<subseteq> set m"
  shows "singleValueLoop m (map fst ps) qs = joinOnto qs (singleValuePairs ps)"
  using assms(2)
proof (induction ps arbitrary: qs)
  case Nil
  then show ?case by (simp add: singleValuePairs_def)
next
  case (Cons e ps)
  obtain q v where e: "e = (q, v)" by (cases e)
  with Cons.prems have "(q, v) \<in> set m" by simp
  then have i: "index_str m q = v" by (rule index_str_distinct[OF assms(1)])
  have "singleValuePairs (e # ps) = (QueryEscape q @ ''='' @ QueryEscape v) # singleValuePairs ps"
    by (simp add: singleValuePairs_def e)
  moreover have "singleValueLoop m (map fst ps) qs' = joinOnto qs' (singleValuePairs ps)" for qs'
    using Cons.IH Cons.prems by simp
  ultimately show ?case
    by (simp add: e i addPair_def)
qed

lemma joinOnto_nonempty:
  "qs \<noteq> [] \<Longrightarrow> joinOnto qs ps = (if ps = [] then qs else qs @ ''&'' @ joinAmp ps)"
proof (induction ps arbitrary: qs)
  case Nil
  then show ?case by simp
next
  case (Cons p ps)
  have "joinOnto qs (p # ps) = joinOnto (qs @ ''&'' @ p) ps"
    using Cons.prems by simp
  also have "\<dots> = (if ps = [] then qs @ ''&'' @ p else (qs @ ''&'' @ p) @ ''&'' @ joinAmp ps)"
    by (rule Cons.IH) simp
  also have "\<dots> = qs @ ''&'' @ joinAmp (p # ps)"
    by (cases ps) simp_all
  finally show ?case by simp
qed

lemma joinOnto_empty:
  "\<forall>p \<in> set ps. p \<noteq> [] \<Longrightarrow> joinOnto [] ps = joinAmp ps"
proof (cases ps)
  case Nil
  then show ?thesis by simp
next
  case (Cons p ps')
  assume "\<forall>p \<in> set ps. p \<noteq> []"
  with Cons have "p \<noteq> []" by simp
  then show ?thesis
    using joinOnto_nonempty[of p ps'] Cons by (cases ps') simp_all
qed

lemma multiValuePairs_nonempty: "p \<in> set (multiValuePairs m) \<Longrightarrow> p \<noteq> []"
  by (auto simp: multiValuePairs_def)

lemma singleValuePairs_nonempty: "p \<in> set (singleValuePairs m) \<Longrightarrow> p \<noteq> []"
  by (auto simp: singleValuePairs_def)

lemma multiValueLoop_joinAmp: "multiValueLoop m [] = joinAmp (multiValuePairs m)"
  by (simp add: multiValueLoop_joinOnto joinOnto_empty multiValuePairs_nonempty)

lemma singleValueLoop_joinAmp:
  "distinct (map fst m) \<Longrightarrow> singleValueLoop m (map fst m) [] = joinAmp (singleValuePairs m)"
  by (simp add: singleValueLoop_joinOnto joinOnto_empty singleValuePairs_nonempty)

text \<open>The reconstructed query string.\<close>

lemma Path_appendQuery:
  "Path (appendQuery ar) =
     (if MultiValueQueryStringParameters ar \<noteq> []
      then Path ar @ ''?'' @ joinAmp (multiValuePairs (MultiValueQueryStringParameters ar))
      else if QueryStringParameters ar \<noteq> []
      then Path ar @ ''?'' @ singleValueLoop (QueryStringParameters ar)
                               (map fst (QueryStringParameters ar)) []
      else Path ar)"
  by (simp add: appendQuery_def multiValueLoop_joinAmp)

lemma upperhex_alnum: "i < 16 \<Longrightarrow> isAlnum (upperhex ! i)"
proof -
  have "\<forall>c \<in> set upperhex. isAlnum c" by (simp add: upperhex_def isAlnum_def)
  moreover assume "i < 16"
  then have "upperhex ! i \<in> set upperhex" by (intro nth_mem) (simp add: upperhex_def)
  ultimately show ?thesis by blast
qed

lemma QueryEscape_chars:
  "c \<in> set (QueryEscape s) \<Longrightarrow> isAlnum c \<or> c \<in> set ''-_.~+%''"
proof (induction s)
  case Nil
  then show ?case by simp
next
  case (Cons a s)
  have d: "(of_char a :: nat) div 16 < 16"
    using of_char_lt[of a] by (intro less_mult_imp_div_less) simp
  have m: "(of_char a :: nat) mod 16 < 16" by simp
  from Cons show ?case
    using upperhex_alnum[OF d] upperhex_alnum[OF m]
    by (auto simp: shouldEscape_def split: if_splits)
qed

lemma ToRequest_Some_URL:
  assumes "ToRequest W ar = ((Some req, e), ar')"
  shows "URL req = Path (appendQuery ar)" and "ar' = appendQuery ar" and "e = None"
proof -
  from ToRequest_Some[OF assms] obtain body where
    n: "NewRequest W (ToUpper (unicodeUpper W) (HTTPMethod (appendQuery ar)))
          (Path (appendQuery ar)) body = Inr (req\<lparr>http_Request.Header := Map.empty\<rparr>)"
    and r: "ar' = appendQuery ar" "e = None"
    by blast
  from NewRequest_fields[OF n] show "URL req = Path (appendQuery ar)" by simp
  from r show "ar' = appendQuery ar" "e = None" by simp_all
qed


lemma decodedBody_appendQuery [simp]: "decodedBody (appendQuery ar) = decodedBody ar"
  by (simp add: decodedBody_def)

text \<open>
  C5. Whenever \<^verbatim>\<open>ToRequest\<close> produces a request: with multi-value query
  parameters, its URL is the event's path, a question mark, and the pairs \<open>key=value\<close>
  of the multi-value map joined by \<open>&\<close>, key and value escaped; the single-value map
  plays no part. With none of these but single-value parameters, the same holds with
  the pairs of the single-value map. With neither, the URL is the event's path and
  nothing more. An escaped key or value consists of letters, digits, the four marks
  \<open>-_.~\<close>, the plus sign that stands for a space, and percent escapes.
\<close>

theorem ToRequest_query:
  assumes "ToRequest W ar = ((Some req, e), ar')"
  shows "(MultiValueQueryStringParameters ar \<noteq> [] \<longrightarrow>
            URL req = Path ar @ ''?'' @ joinAmp (multiValuePairs (MultiValueQueryStringParameters ar)))
       \<and> (MultiValueQueryStringParameters ar = [] \<and> QueryStringParameters ar \<noteq> []
            \<and> distinct (map fst (QueryStringParameters ar)) \<longrightarrow>
            URL req = Path ar @ ''?'' @ joinAmp (singleValuePairs (QueryStringParameters ar)))
       \<and> (MultiValueQueryStringParameters ar = [] \<and> QueryStringParameters ar = [] \<longrightarrow>
            URL req = Path ar)
       \<and> (\<forall>s. \<forall>c \<in> set (QueryEscape s). isAlnum c \<or> c \<in> set ''-_.~+%'')"
  using ToRequest_Some_URL(1)[OF assms] QueryEscape_chars
  by (simp add: Path_appendQuery singleValueLoop_joinAmp)

theorem ToRequest_query_witness:
  "(\<exists>req. ToRequest (sampleWorld None)
            ((sampleEvent ''/p'' ''get'')
               \<lparr>QueryStringParameters := [(''z'', ''9'')],
                MultiValueQueryStringParameters := [(''a b'', [''1'', ''x&y'']), (''c'', [''d''])]\<rparr>)
          = ((Some req, None),
             (sampleEvent ''/p?a+b=1&a+b=x%26y&c=d'' ''get'')
               \<lparr>QueryStringParameters := [(''z'', ''9'')],
                MultiValueQueryStringParameters := [(''a b'', [''1'', ''x&y'']), (''c'', [''d''])]\<rparr>)
        \<and> URL req = ''/p?a+b=1&a+b=x%26y&c=d'')"
proof -
  let ?ev = "(sampleEvent ''/p'' ''get'')
               \<lparr>QueryStringParameters := [(''z'', ''9'')],
                MultiValueQueryStringParameters := [(''a b'', [''1'', ''x&y'']), (''c'', [''d''])]\<rparr>"
  let ?ev' = "(sampleEvent ''/p?a+b=1&a+b=x%26y&c=d'' ''get'')
               \<lparr>QueryStringParameters := [(''z'', ''9'')],
                MultiValueQueryStringParameters := [(''a b'', [''1'', ''x&y'']), (''c'', [''d''])]\<rparr>"
  have t: "ToRequest (sampleWorld None) ?ev
      = ((Some \<lparr>Method = ''GET'', URL = ''/p?a+b=1&a+b=x%26y&c=d'', Header = Map.empty, Body = [],
                ctx = Background\<rparr>, None), ?ev')"
    by (simp add: ToRequest_def sampleWorld_def sampleEvent_def decodedBody_def absolutePath_def
        strippedPath_def appendQuery_def NewRequest_def ToUpper_def upperByte_def validMethod_def
        isToken_def isAlnum_def rootedURL_def HasPrefix_def CustomHostVariable_def Let_def
        addPair_def shouldEscape_def upperhex_def char_of_def bit_iff_odd)
  from ToRequest_query[OF t] t show ?thesis
    by (simp add: sampleEvent_def)
qed




section \<open>Request headers\<close>

lemma addHeaders_lookup:
  "addHeaders m keys hdr key =
     (let vs = map (index_str m) (filter (\<lambda>h. CanonicalMIMEHeaderKey h = key) keys)
      in if vs = [] then hdr key
         else Some ((case hdr key of None \<Rightarrow> [] | Some ws \<Rightarrow> ws) @ vs))"
proof (induction keys arbitrary: hdr)
  case Nil
  then show ?case by simp
next
  case (Cons h keys)
  show ?case
    by (simp add: Cons.IH Header_Add_def Let_def)
qed

lemma values_of_distinct:
  assumes "distinct (map fst m)" "set ps \<subseteq> set m"
  shows "map (index_str m) (filter P (map fst ps)) = map snd (filter (\<lambda>(h, v). P h) ps)"
  using assms(2)
proof (induction ps)
  case Nil
  then show ?case by simp
next
  case (Cons e ps)
  obtain h v where e: "e = (h, v)" by (cases e)
  with Cons.prems have "(h, v) \<in> set m" by simp
  then have "index_str m h = v" by (rule index_str_distinct[OF assms(1)])
  with Cons e show ?case by simp
qed

lemma ToRequest_MultiValueHeaders:
  "fst (ToRequest W (ar\<lparr>AdapterRequest.MultiValueHeaders := mvh\<rparr>)) = fst (ToRequest W ar)"
  by (simp add: ToRequest_def decodedBody_def appendQuery_def absolutePath_def strippedPath_def
        Let_def split: sum.splits)

text \<open>
  C7, as the claim states it, fails: the header \<open>content-type\<close> of the event is not on
  the request under that key. It is there under \<open>Content-Type\<close>.
\<close>

theorem ToRequest_header_key_changed:
  "\<exists>req. fst (ToRequest (sampleWorld None)
               ((sampleEvent ''/p'' ''get'')
                  \<lparr>AdapterRequest.Headers := [(''content-type'', ''text/plain'')]\<rparr>))
            = (Some req, None)
     \<and> http_Request.Header req ''content-type'' = None
     \<and> http_Request.Header req ''Content-Type'' = Some [''text/plain'']"
  by (simp add: ToRequest_def sampleWorld_def sampleEvent_def decodedBody_def absolutePath_def
        strippedPath_def appendQuery_def NewRequest_def ToUpper_def upperByte_def validMethod_def
        isToken_def isAlnum_def rootedURL_def HasPrefix_def CustomHostVariable_def Let_def
        Header_Add_def CanonicalMIMEHeaderKey_def index_str_def char_of_def bit_iff_odd)

text \<open>
  C7, amended. On every request that \<^verbatim>\<open>ToRequest\<close> produces, each entry of the event's
  single-value header map appears with its value unchanged under the canonical form of
  its key (first letter and every letter after a hyphen in upper case, the other letters
  in lower case, when the key is an HTTP token; the key itself otherwise). The request
  has exactly these headers: under a key it holds the values of the entries whose key
  has that canonical form, in the order of the map's traversal. The multi-value header
  map of the event plays no part.
\<close>

theorem ToRequest_headers:
  assumes "ToRequest W ar = ((Some req, e), ar')"
    and "distinct (map fst (AdapterRequest.Headers ar))"
  shows "(\<forall>(h, v) \<in> set (AdapterRequest.Headers ar).
            \<exists>vs. http_Request.Header req (CanonicalMIMEHeaderKey h) = Some vs \<and> v \<in> set vs)
       \<and> (\<forall>key. http_Request.Header req key =
             (let vs = map snd (filter (\<lambda>(h, v). CanonicalMIMEHeaderKey h = key)
                                   (AdapterRequest.Headers ar))
              in if vs = [] then None else Some vs))
       \<and> (\<forall>mvh. fst (ToRequest W (ar\<lparr>AdapterRequest.MultiValueHeaders := mvh\<rparr>))
                  = fst (ToRequest W ar))"
proof -
  from ToRequest_Some[OF assms(1)]
  have hdr: "http_Request.Header req
      = addHeaders (AdapterRequest.Headers ar) (map fst (AdapterRequest.Headers ar)) Map.empty"
    by auto
  have look: "http_Request.Header req key =
             (let vs = map snd (filter (\<lambda>(h, v). CanonicalMIMEHeaderKey h = key)
                                   (AdapterRequest.Headers ar))
              in if vs = [] then None else Some vs)" for key
    unfolding hdr addHeaders_lookup
    using values_of_distinct[OF assms(2) subset_refl, of "\<lambda>h. CanonicalMIMEHeaderKey h = key"]
    by (simp add: Let_def)
  have each: "\<exists>vs. http_Request.Header req (CanonicalMIMEHeaderKey h) = Some vs \<and> v \<in> set vs"
    if "(h, v) \<in> set (AdapterRequest.Headers ar)" for h v
  proof -
    let ?vs = "map snd (filter (\<lambda>(h', v). CanonicalMIMEHeaderKey h' = CanonicalMIMEHeaderKey h)
                 (AdapterRequest.Headers ar))"
    from that have m: "v \<in> set ?vs" by force
    then have ne: "?vs \<noteq> []" by (metis empty_iff list.set(1))
    have "http_Request.Header req (CanonicalMIMEHeaderKey h) = Some ?vs"
      using look[of "CanonicalMIMEHeaderKey h"] ne by (simp add: Let_def)
    with m show ?thesis by blast
  qed
  from each look ToRequest_MultiValueHeaders show ?thesis by blast
qed

theorem ToRequest_headers_witness:
  "\<exists>req. fst (ToRequest (sampleWorld None)
               ((sampleEvent ''/p'' ''get'')
                  \<lparr>AdapterRequest.Headers := [(''content-type'', ''text/plain''), (''X-Trace'', ''7'')],
                   AdapterRequest.MultiValueHeaders := [(''Accept'', [''a'', ''b''])]\<rparr>))
            = (Some req, None)
     \<and> http_Request.Header req ''Content-Type'' = Some [''text/plain'']
     \<and> http_Request.Header req ''X-Trace'' = Some [''7'']
     \<and> http_Request.Header req ''Accept'' = None"
proof -
  let ?ev = "(sampleEvent ''/p'' ''get'')
                  \<lparr>AdapterRequest.Headers := [(''content-type'', ''text/plain''), (''X-Trace'', ''7'')],
                   AdapterRequest.MultiValueHeaders := [(''Accept'', [''a'', ''b''])]\<rparr>"
  have "\<exists>req. ToRequest (sampleWorld None) ?ev = ((Some req, None), ?ev)"
    by (simp add: ToRequest_def sampleWorld_def sampleEvent_def decodedBody_def absolutePath_def
        strippedPath_def appendQuery_def NewRequest_def ToUpper_def upperByte_def validMethod_def
        isToken_def isAlnum_def rootedURL_def HasPrefix_def CustomHostVariable_def Let_def
        char_of_def bit_iff_odd)
  then obtain req where t: "ToRequest (sampleWorld None) ?ev = ((Some req, None), ?ev)" by blast
  have k: "distinct (map fst (AdapterRequest.Headers ?ev))" by simp
  have c: "CanonicalMIMEHeaderKey ''content-type'' = ''Content-Type''"
     "CanonicalMIMEHeaderKey ''X-Trace'' = ''X-Trace''"
    by (simp_all add: CanonicalMIMEHeaderKey_def isToken_def isAlnum_def Let_def
          char_of_def bit_iff_odd)
  from ToRequest_headers[OF t k] c t show ?thesis
    by (simp add: Let_def)
qed

section \<open>The base path\<close>

lemma Trim_space_empty: "Trim s '' '' = [] \<longleftrightarrow> set s \<subseteq> {CHR '' ''}"
proof -
  let ?P = "\<lambda>c. c \<in> set '' ''"
  have "Trim s '' '' = [] \<longleftrightarrow> (\<forall>c \<in> set (dropWhile ?P s). ?P c)"
    by (simp add: Trim_def dropWhile_eq_Nil_conv)
  also have "\<dots> \<longleftrightarrow> (\<forall>c \<in> set s. ?P c)"
    by (metis takeWhile_dropWhile_id set_append Un_iff set_takeWhileD set_dropWhileD)
  also have "\<dots> \<longleftrightarrow> set s \<subseteq> {CHR '' ''}"
    by auto
  finally show ?thesis .
qed

lemma HasPrefix_slash: "HasPrefix s ''/'' \<longleftrightarrow> s \<noteq> [] \<and> hd s = CHR ''/''"
  by (cases s) (auto simp: HasPrefix_def)

lemma HasSuffix_slash: "HasSuffix s ''/'' \<longleftrightarrow> s \<noteq> [] \<and> last s = CHR ''/''"
proof (cases s rule: rev_cases)
  case Nil
  then show ?thesis by (simp add: HasSuffix_def)
next
  case (snoc ys y)
  then show ?thesis by (auto simp: HasSuffix_def)
qed

lemma take_butlast_eq: "take (length s - Suc 0) s = butlast s"
  by (simp add: butlast_conv_take)

lemma take_Cons_butlast: "take (length s) (c # s) = butlast (c # s)"
  using take_butlast_eq[of "c # s"] by simp

text \<open>
  C10. \<^verbatim>\<open>StripBasePath\<close> with an argument that is empty or all spaces stores and
  returns the empty string. With any other argument it puts a slash in front unless
  the argument begins with one, then drops one slash from the end if there is one,
  and stores and returns the result. A stored base path of length one (the argument
  \<open>//\<close> gives the stored path \<open>/\<close>) is not stripped: the local \<^verbatim>\<open>path\<close> of
  \<^verbatim>\<open>ToRequest\<close> is then the event's path, with a slash in front if it has none, and the
  URL of a request that is produced is the receiver's path with its query string.
\<close>

theorem StripBasePath_normalizes:
  "(set basePath \<subseteq> {CHR '' ''} \<longrightarrow>
      StripBasePath ar basePath = ([], ar\<lparr>stripBasePath := []\<rparr>))
   \<and> (\<not> set basePath \<subseteq> {CHR '' ''} \<longrightarrow>
      (let p = (if hd basePath = CHR ''/'' then basePath else CHR ''/'' # basePath);
           n = (if last p = CHR ''/'' then butlast p else p)
       in StripBasePath ar basePath = (n, ar\<lparr>stripBasePath := n\<rparr>)))
   \<and> StripBasePath ar ''//'' = (''/'', ar\<lparr>stripBasePath := ''/''\<rparr>)
   \<and> (length (stripBasePath ar) = 1 \<longrightarrow>
        strippedPath ar = (if hd (Path ar) = CHR ''/'' \<and> Path ar \<noteq> [] then Path ar
                           else CHR ''/'' # Path ar)
        \<and> (\<forall>req e ar'. ToRequest W ar = ((Some req, e), ar') \<longrightarrow> URL req = Path (appendQuery ar)))"
proof (intro conjI impI allI)
  assume "set basePath \<subseteq> {CHR '' ''}"
  then show "StripBasePath ar basePath = ([], ar\<lparr>stripBasePath := []\<rparr>)"
    by (simp add: StripBasePath_def Trim_space_empty)
next
  assume a: "\<not> set basePath \<subseteq> {CHR '' ''}"
  then have ne: "basePath \<noteq> []" by auto
  from a have t: "Trim basePath '' '' \<noteq> []" by (simp add: Trim_space_empty)
  show "let p = (if hd basePath = CHR ''/'' then basePath else CHR ''/'' # basePath);
            n = (if last p = CHR ''/'' then butlast p else p)
        in StripBasePath ar basePath = (n, ar\<lparr>stripBasePath := n\<rparr>)"
    using t ne
    by (simp add: StripBasePath_def Let_def HasPrefix_slash HasSuffix_slash take_butlast_eq
          take_Cons_butlast)
next
  show "StripBasePath ar ''//'' = (''/'', ar\<lparr>stripBasePath := ''/''\<rparr>)"
    by (simp add: StripBasePath_def Trim_def HasPrefix_def HasSuffix_def Let_def)
next
  assume "length (stripBasePath ar) = 1"
  then show "strippedPath ar = (if hd (Path ar) = CHR ''/'' \<and> Path ar \<noteq> [] then Path ar
                           else CHR ''/'' # Path ar)"
    by (auto simp: strippedPath_def Let_def HasPrefix_slash)
next
  fix req e ar'
  assume "ToRequest W ar = ((Some req, e), ar')"
  then show "URL req = Path (appendQuery ar)" by (rule ToRequest_Some_URL(1))
qed

theorem StripBasePath_normalizes_witness:
  "StripBasePath (sampleEvent ''/v1/pets'' ''get'') ''   ''
      = ([], sampleEvent ''/v1/pets'' ''get'')
   \<and> StripBasePath (sampleEvent ''/v1/pets'' ''get'') ''v1/''
      = (''/v1'', (sampleEvent ''/v1/pets'' ''get'')\<lparr>stripBasePath := ''/v1''\<rparr>)
   \<and> strippedPath ((sampleEvent ''/v1/pets'' ''get'')\<lparr>stripBasePath := ''/''\<rparr>) = ''/v1/pets''"
proof -
  have s: "set ''   '' \<subseteq> {CHR '' ''}" "\<not> set ''v1/'' \<subseteq> {CHR '' ''}" by simp_all
  have l: "length (stripBasePath ((sampleEvent ''/v1/pets'' ''get'')\<lparr>stripBasePath := ''/''\<rparr>)) = 1"
    by simp
  show ?thesis
    using StripBasePath_normalizes[of "''   ''" "sampleEvent ''/v1/pets'' ''get''" "sampleWorld None"]
      StripBasePath_normalizes[of "''v1/''" "sampleEvent ''/v1/pets'' ''get''" "sampleWorld None"]
      StripBasePath_normalizes[of "[]" "(sampleEvent ''/v1/pets'' ''get'')\<lparr>stripBasePath := ''/''\<rparr>"
          "sampleWorld None"]
      s l
    by (simp add: sampleEvent_def Let_def)
qed

section \<open>Driving a handler\<close>

lemma ToRequest_result_cases:
  "(\<exists>req. fst (ToRequest W ar) = (Some req, None)) \<or> (\<exists>err. fst (ToRequest W ar) = (None, Some err))"
  by (simp add: ToRequest_def Let_def split: sum.splits)

lemma NewAdapterResponse_cases:
  "NewAdapterResponse r =
     (case ReadAll (http_Response.Body r) of
        (rb, Some cause) \<Rightarrow> (None, Some (Wrap cause ''Unable to read response body''))
      | (rb, None) \<Rightarrow>
          (Some \<lparr>AdapterResponse.StatusCode = http_Response.StatusCode r,
                 StatusDescription = [],
                 Headers = Map.empty,
                 MultiValueHeaders = http_Response.Header r,
                 Body = (if Valid rb then rb else EncodeToString rb),
                 IsBase64Encoded = (\<not> Valid rb)\<rparr>,
           None))"
  by (simp add: NewAdapterResponse_def split: prod.splits option.splits)

lemma Result_Flush_fresh:
  assumes "result w = None"
  shows "http_Response.StatusCode (Result (Flush w))
           = (if wroteHeader w then (if Code w = 0 then 200 else Code w) else 200)"
    and "http_Response.Header (Result (Flush w))
           = (if wroteHeader w then (case snapHeader w of None \<Rightarrow> HeaderMap w | Some h \<Rightarrow> h)
              else HeaderMap w)"
    and "http_Response.Body (Result (Flush w))
           = Reader (case ResponseRecorder.Body w of None \<Rightarrow> [] | Some b \<Rightarrow> b) None"
  using assms by (simp_all add: Result_def Flush_def WriteHeader_def split: option.splits)

text \<open>
  C8. When \<^verbatim>\<open>Proxy\<close> returns, it returns one of three things. The request could not
  be built: then the response is nil and the error is the cause wrapped with the
  message of the request phase. Or the handler was run on the request, carrying the
  invocation's context, and has returned, and the body of the recorded response could
  not be read: then the response is nil and the error is the cause wrapped with the
  messages of the response phase. Or that body was read: then the error is nil and
  the response has every field set from the recorded response (its status code, its
  headers as the multi-value map, the body as text or base64 with the flag, an empty
  single-value map and an empty description). The recorded response is the one an
  earlier \<^verbatim>\<open>Result\<close> has stored, if any; otherwise its body always reads, its code is
  the one written (200 when none was), and its headers are those in force when the
  status line was written, so a header set later is not in it. A response together
  with an error does not occur. \<^verbatim>\<open>Proxy\<close> fails to return only when the handler does
  not return.
\<close>

theorem Proxy_all_or_nothing:
  "(case Proxy W c handler ar of
      None \<Rightarrow> (\<exists>req. fst (ToRequest W ar) = (Some req, None)
                   \<and> handler NewRecorder (req\<lparr>ctx := c\<rparr>) = None)
    | Some ((resp, err), ar') \<Rightarrow>
        ar' = snd (ToRequest W ar)
        \<and> ((resp = None
              \<and> (\<exists>cause. fst (ToRequest W ar) = (None, Some cause)
                    \<and> err = Some (Wrap cause ''Unable to convert AdapterRequest to http.Request'')))
           \<or> (resp = None
              \<and> (\<exists>req w rb cause. fst (ToRequest W ar) = (Some req, None)
                    \<and> handler NewRecorder (req\<lparr>ctx := c\<rparr>) = Some w
                    \<and> result w \<noteq> None
                    \<and> ReadAll (http_Response.Body (Result (Flush w))) = (rb, Some cause)
                    \<and> err = Some (Wrap (Wrap cause ''Unable to read response body'')
                                    ''Unable to convert http.Response into AdapterResponse'')))
           \<or> (err = None
              \<and> (\<exists>req w rb. fst (ToRequest W ar) = (Some req, None)
                    \<and> handler NewRecorder (req\<lparr>ctx := c\<rparr>) = Some w
                    \<and> ReadAll (http_Response.Body (Result (Flush w))) = (rb, None)
                    \<and> resp = Some \<lparr>AdapterResponse.StatusCode
                                      = http_Response.StatusCode (Result (Flush w)),
                                    StatusDescription = [],
                                    Headers = Map.empty,
                                    MultiValueHeaders = http_Response.Header (Result (Flush w)),
                                    Body = (if Valid rb then rb else EncodeToString rb),
                                    IsBase64Encoded = (\<not> Valid rb)\<rparr>
                    \<and> (result w = None \<longrightarrow>
                          rb = (case ResponseRecorder.Body w of None \<Rightarrow> [] | Some b \<Rightarrow> b)
                          \<and> http_Response.StatusCode (Result (Flush w))
                              = (if wroteHeader w then (if Code w = 0 then 200 else Code w)
                                 else 200)
                          \<and> http_Response.Header (Result (Flush w))
                              = (if wroteHeader w
                                 then (case snapHeader w of None \<Rightarrow> HeaderMap w | Some h \<Rightarrow> h)
                                 else HeaderMap w))))))"
proof -
  obtain r ar1 where t: "ToRequest W ar = (r, ar1)" by (cases "ToRequest W ar")
  from ToRequest_result_cases[of W ar] t
  consider (ok) req where "r = (Some req, None)" | (bad) cause where "r = (None, Some cause)"
    by auto
  then show ?thesis
  proof cases
    case ok
    show ?thesis
    proof (cases "handler NewRecorder (req\<lparr>ctx := c\<rparr>)")
      case None
      with ok t show ?thesis by (simp add: Proxy_def)
    next
      case (Some w)
      obtain rb e where ra: "ReadAll (http_Response.Body (Result (Flush w))) = (rb, e)"
        by (cases "ReadAll (http_Response.Body (Result (Flush w)))")
      show ?thesis
      proof (cases e)
        case None
        have fresh: "result w = None \<Longrightarrow>
                     rb = (case ResponseRecorder.Body w of None \<Rightarrow> [] | Some b \<Rightarrow> b)"
          using ra None by (simp add: Result_Flush_fresh(3))
        from ok t Some ra None fresh show ?thesis
          by (simp add: Proxy_def NewAdapterResponse_cases Result_Flush_fresh(1,2))
      next
        case (Some cause)
        have cached: "result w \<noteq> None"
        proof
          assume "result w = None"
          then show False using ra Some by (simp add: Result_Flush_fresh(3))
        qed
        from ok t \<open>handler NewRecorder (req\<lparr>ctx := c\<rparr>) = Some w\<close> ra Some cached show ?thesis
          by (simp add: Proxy_def NewAdapterResponse_cases)
      qed
    qed
  next
    case bad
    with t show ?thesis by (simp add: Proxy_def)
  qed
qed

theorem Proxy_all_or_nothing_witness:
  "Proxy (sampleWorld None) (Invocation ''req-1'')
      (\<lambda>w r. Some ((WriteHeader (w\<lparr>HeaderMap := [''Content-Type'' \<mapsto> [''text/plain'']]\<rparr>) 200)
                      \<lparr>HeaderMap := [''Content-Type'' \<mapsto> [''text/plain''], ''X-Late'' \<mapsto> [''1'']],
                       ResponseRecorder.Body := Some ''Hello World!''\<rparr>))
      (sampleEvent ''/'' ''get'')
     = Some ((Some \<lparr>AdapterResponse.StatusCode = 200, StatusDescription = [],
                     Headers = Map.empty,
                     MultiValueHeaders = [''Content-Type'' \<mapsto> [''text/plain'']],
                     Body = ''Hello World!'', IsBase64Encoded = False\<rparr>, None),
             sampleEvent ''/'' ''get'')
   \<and> Proxy (sampleWorld None) (Invocation ''req-2'')
      (\<lambda>w r. Some ((WriteHeader (w\<lparr>HeaderMap := [''Content-Type'' \<mapsto> [''text/plain'']]\<rparr>) 200)
                      \<lparr>HeaderMap := [''Content-Type'' \<mapsto> [''text/plain''], ''X-Late'' \<mapsto> [''1'']],
                       ResponseRecorder.Body := Some ''Hello World!''\<rparr>))
      (sampleEvent ''/'' ''no method'')
     = Some ((None, Some (Wrap InvalidMethodError
                            ''Unable to convert AdapterRequest to http.Request'')),
             sampleEvent ''/'' ''no method'')"
proof -
  let ?h = "\<lambda>(w :: ResponseRecorder) (r :: http_Request).
      Some ((WriteHeader (w\<lparr>HeaderMap := [''Content-Type'' \<mapsto> [''text/plain'']]\<rparr>) 200)
              \<lparr>HeaderMap := [''Content-Type'' \<mapsto> [''text/plain''], ''X-Late'' \<mapsto> [''1'']],
               ResponseRecorder.Body := Some ''Hello World!''\<rparr>)"
  have t1: "ToRequest (sampleWorld None) (sampleEvent ''/'' ''get'')
      = ((Some \<lparr>Method = ''GET'', URL = ''/'', Header = Map.empty, Body = [],
                ctx = Background\<rparr>, None), sampleEvent ''/'' ''get'')"
    by (simp add: ToRequest_def sampleWorld_def sampleEvent_def decodedBody_def absolutePath_def
        strippedPath_def appendQuery_def NewRequest_def ToUpper_def upperByte_def validMethod_def
        isToken_def isAlnum_def rootedURL_def HasPrefix_def CustomHostVariable_def Let_def
        char_of_def bit_iff_odd)
  have t2: "ToRequest (sampleWorld None) (sampleEvent ''/'' ''no method'')
      = ((None, Some InvalidMethodError), sampleEvent ''/'' ''no method'')"
    by (simp add: ToRequest_def sampleWorld_def sampleEvent_def decodedBody_def absolutePath_def
        strippedPath_def appendQuery_def NewRequest_def ToUpper_def upperByte_def validMethod_def
        isToken_def isAlnum_def rootedURL_def HasPrefix_def CustomHostVariable_def Let_def
        char_of_def bit_iff_odd)
  have v: "Valid ''Hello World!''" by simp
  have p1: "Proxy (sampleWorld None) (Invocation ''req-1'') ?h (sampleEvent ''/'' ''get'') \<noteq> None"
    by (simp add: Proxy_def t1 NewAdapterResponse_cases split: prod.splits option.splits)
  have p2: "Proxy (sampleWorld None) (Invocation ''req-2'') ?h (sampleEvent ''/'' ''no method'') \<noteq> None"
    by (simp add: Proxy_def t2)
  from Proxy_all_or_nothing[where W = "sampleWorld None" and c = "Invocation ''req-1''"
                             and handler = ?h and ar = "sampleEvent ''/'' ''get''"]
       Proxy_all_or_nothing[where W = "sampleWorld None" and c = "Invocation ''req-2''"
                             and handler = ?h and ar = "sampleEvent ''/'' ''no method''"]
       p1 p2
  show ?thesis
    by (auto simp: t1 t2 v NewRecorder_def WriteHeader_def Flush_def Result_def
          split: option.splits prod.splits)
qed

end
